theory Spec2Isabelle
  imports Main
begin

section \<open>Strings\<close>

text \<open>
  A Python \<open>str\<close> is modelled as a \<open>string\<close>, a list of 8-bit characters: ASCII text is
  itself, and a character beyond ASCII (the Chinese of the messages and of the trivial
  command table) is its UTF-8 byte sequence. The character classes are those of ASCII:
  a byte from \<open>0x80\<close> on is neither whitespace nor a word character, and \<open>lower\<close> leaves
  it alone. On ASCII input this is what Python computes.
\<close>

definition is_space :: "char \<Rightarrow> bool" where
  \<comment> \<open>\<open>str.isspace\<close>, and \<open>\s\<close> of \<open>re\<close> on \<open>str\<close>: tab, LF, VT, FF, CR, FS, GS, RS, US, space\<close>
  "is_space c = (c = CHR 0x20 \<or> c = CHR 0x09 \<or> c = CHR 0x0A \<or> c = CHR 0x0B \<or> c = CHR 0x0C
     \<or> c = CHR 0x0D \<or> c = CHR 0x1C \<or> c = CHR 0x1D \<or> c = CHR 0x1E \<or> c = CHR 0x1F)"

definition is_digit :: "char \<Rightarrow> bool" where
  "is_digit c = (let n = (of_char c :: nat) in 48 \<le> n \<and> n \<le> 57)"

definition is_upper :: "char \<Rightarrow> bool" where
  "is_upper c = (let n = (of_char c :: nat) in 65 \<le> n \<and> n \<le> 90)"

definition is_lower :: "char \<Rightarrow> bool" where
  "is_lower c = (let n = (of_char c :: nat) in 97 \<le> n \<and> n \<le> 122)"

definition is_alpha :: "char \<Rightarrow> bool" where
  "is_alpha c = (is_upper c \<or> is_lower c)"

definition is_word :: "char \<Rightarrow> bool" where
  \<comment> \<open>\<open>\w\<close>, and the class \<open>[A-Za-z0-9_]\<close>\<close>
  "is_word c = (is_alpha c \<or> is_digit c \<or> c = CHR ''_'')"

definition is_hex :: "char \<Rightarrow> bool" where
  \<comment> \<open>the class \<open>[0-9a-fA-F]\<close>\<close>
  "is_hex c = (let n = (of_char c :: nat) in
     (48 \<le> n \<and> n \<le> 57) \<or> (97 \<le> n \<and> n \<le> 102) \<or> (65 \<le> n \<and> n \<le> 70))"

definition lower_char :: "char \<Rightarrow> char" where
  "lower_char c = (if is_upper c then char_of (of_char c + (32 :: nat)) else c)"

definition lower :: "string \<Rightarrow> string" where
  \<comment> \<open>\<open>str.lower\<close>\<close>
  "lower s = map lower_char s"

definition strip :: "string \<Rightarrow> string" where
  \<comment> \<open>\<open>str.strip()\<close>\<close>
  "strip s = rev (dropWhile is_space (rev (dropWhile is_space s)))"

fun startswith :: "string \<Rightarrow> string \<Rightarrow> bool" where
  \<comment> \<open>\<open>s.startswith(p)\<close>\<close>
  "startswith s [] = True"
| "startswith [] (p # ps) = False"
| "startswith (c # cs) (p # ps) = (if c = p then startswith cs ps else False)"

fun str_in :: "string \<Rightarrow> string \<Rightarrow> bool" where
  \<comment> \<open>\<open>p in s\<close>\<close>
  "str_in p [] = (p = [])"
| "str_in p (c # cs) = (startswith (c # cs) p \<or> str_in p cs)"

fun split_acc :: "string \<Rightarrow> string \<Rightarrow> string list" where
  "split_acc acc [] = (if acc = [] then [] else [rev acc])"
| "split_acc acc (c # cs) =
     (if is_space c then (if acc = [] then split_acc [] cs else rev acc # split_acc [] cs)
      else split_acc (c # acc) cs)"

definition split_ws :: "string \<Rightarrow> string list" where
  \<comment> \<open>\<open>s.split()\<close>: the maximal runs of characters that are not whitespace\<close>
  "split_ws s = split_acc [] s"

definition after_last_slash :: "string \<Rightarrow> string" where
  \<comment> \<open>\<open>w.split("/")[-1]\<close>\<close>
  "after_last_slash w = rev (takeWhile (\<lambda>c. c \<noteq> CHR ''/'') (rev w))"

fun digits_val :: "nat \<Rightarrow> string \<Rightarrow> nat" where
  \<comment> \<open>\<open>int(ds)\<close> of a string of decimal digits, read from the left\<close>
  "digits_val acc [] = acc"
| "digits_val acc (c # cs) = digits_val (10 * acc + (of_char c - 48)) cs"

section \<open>Regular expressions of the gate\<close>

text \<open>
  \<open>re.search\<close> tries the pattern at every position from the left. A pattern is modelled
  by its matcher at one position: a predicate on the character before the position (for
  a look-behind or \<open>\b\<close>) and on the rest of the string from the position on.
\<close>

type_synonym matcher = "char option \<Rightarrow> string \<Rightarrow> bool"

fun re_search :: "matcher \<Rightarrow> char option \<Rightarrow> string \<Rightarrow> bool" where
  "re_search m prev [] = m prev []"
| "re_search m prev (c # cs) = (m prev (c # cs) \<or> re_search m (Some c) cs)"

fun space_star :: "(string \<Rightarrow> bool) \<Rightarrow> string \<Rightarrow> bool" where
  \<comment> \<open>\<open>\s*\<close> followed by the rest of the pattern\<close>
  "space_star k [] = k []"
| "space_star k (c # cs) = (k (c # cs) \<or> (is_space c \<and> space_star k cs))"

fun dot_star :: "(string \<Rightarrow> bool) \<Rightarrow> string \<Rightarrow> bool" where
  \<comment> \<open>\<open>.*\<close> followed by the rest of the pattern; \<open>.\<close> is any character but LF\<close>
  "dot_star k [] = k []"
| "dot_star k (c # cs) = (k (c # cs) \<or> (c \<noteq> CHR 0x0A \<and> dot_star k cs))"

definition lit :: "string \<Rightarrow> matcher" where
  "lit p prev r = startswith r p"

definition m_param_expansion :: matcher where
  \<comment> \<open>\<open>\$\{.*:-.*\}\<close>\<close>
  "m_param_expansion prev r =
    (if startswith r ''${'' then
       dot_star (\<lambda>r1. if startswith r1 '':-'' then
         dot_star (\<lambda>r2. startswith r2 ''}'') (drop 2 r1) else False) (drop 2 r)
     else False)"

definition m_redirect_out :: matcher where
  \<comment> \<open>\<open>>\s*[^|&]\<close>\<close>
  "m_redirect_out prev r =
    (if startswith r ''>'' then
       space_star (\<lambda>r1. case r1 of [] \<Rightarrow> False | c # _ \<Rightarrow> c \<noteq> CHR ''|'' \<and> c \<noteq> CHR ''&'') (drop 1 r)
     else False)"

definition m_redirect_in :: matcher where
  \<comment> \<open>\<open><\s*[^<]\<close>\<close>
  "m_redirect_in prev r =
    (if startswith r ''<'' then
       space_star (\<lambda>r1. case r1 of [] \<Rightarrow> False | c # _ \<Rightarrow> c \<noteq> CHR ''<'') (drop 1 r)
     else False)"

definition m_background :: matcher where
  \<comment> \<open>\<open>(?<!&)&(?!&)\<close>\<close>
  "m_background prev r =
    (if startswith r ''&'' then prev \<noteq> Some CHR ''&'' \<and> \<not> startswith (drop 1 r) ''&'' else False)"

definition m_hex_escape :: matcher where
  \<comment> \<open>\<open>\\x[0-9a-fA-F]{2}\<close>\<close>
  "m_hex_escape prev r =
    (if startswith r [CHR 0x5C, CHR ''x''] then
       length r \<ge> 4 \<and> list_all is_hex (take 2 (drop 2 r))
     else False)"

definition m_unicode_escape :: matcher where
  \<comment> \<open>\<open>\\u[0-9a-fA-F]{4}\<close>\<close>
  "m_unicode_escape prev r =
    (if startswith r [CHR 0x5C, CHR ''u''] then
       length r \<ge> 6 \<and> list_all is_hex (take 4 (drop 2 r))
     else False)"

definition bs :: string where
  "bs = [CHR 0x5C]"

definition DANGEROUS_PATTERNS :: "(string \<times> matcher) list" where
  \<comment> \<open>each pattern with its source text, which the rejection reason quotes\<close>
  "DANGEROUS_PATTERNS = [
     (''`'', lit ''`''),
     (bs @ ''$'' @ bs @ ''('', lit ''$(''),
     (bs @ ''$'' @ bs @ ''{.*:-.*'' @ bs @ ''}'', m_param_expansion),
     (''<'' @ bs @ ''('', lit ''<(''),
     (''>'' @ bs @ ''('', lit ''>(''),
     (''>'' @ bs @ ''s*[^|&]'', m_redirect_out),
     (''>>'' @ bs @ ''s*'', lit ''>>''),
     (''<'' @ bs @ ''s*[^<]'', m_redirect_in),
     (bs @ ''|'' @ bs @ ''|'', lit ''||''),
     (''(?<!&)&(?!&)'', m_background),
     ('';'' @ bs @ ''s*'', lit '';''),
     (bs @ ''n'', lit [CHR 0x0A]),
     (bs @ ''r'', lit [CHR 0x0D]),
     (bs @ bs @ ''x[0-9a-fA-F]{2}'', m_hex_escape),
     (bs @ bs @ ''u[0-9a-fA-F]{4}'', m_unicode_escape)]"

section \<open>The safety gate (safety.py)\<close>

subsection \<open>The lists\<close>

text \<open>
  The source keeps the allow list and the deny list as Python sets and iterates over
  them; the model lists their elements in the order of the source text. The verdict of
  the gate does not depend on that order; the text of a rejection reason may, when more
  than one deny-listed command occurs in a fragment.
\<close>

definition UNCONDITIONAL_ALLOW :: "string list" where
  "UNCONDITIONAL_ALLOW = [
    ''ls'', ''cat'', ''pwd'', ''echo'', ''printf'', ''test'', ''['', ''tail'', ''head'',
     ''wc'', ''whoami'', ''id'', ''uname'', ''hostname'', ''stat'', ''readlink'',
     ''basename'', ''dirname'', ''realpath'', ''file'', ''tree'', ''md5sum'',
     ''sha256sum'', ''sha1sum'', ''sort'', ''uniq'', ''cut'', ''tr'', ''nl'', ''tac'',
     ''rev'', ''grep'', ''egrep'', ''fgrep'', ''zgrep'', ''diff'', ''comm'', ''join'',
     ''paste'', ''expand'', ''unexpand'', ''column'', ''fold'', ''fmt'', ''less'',
     ''more'', ''env'', ''printenv'', ''locale'', ''set'', ''df'', ''du'', ''lsblk'',
     ''mount'', ''findmnt'', ''blkid'', ''find'', ''locate'', ''which'', ''whereis'',
     ''type'', ''command'', ''ps'', ''pgrep'', ''pidof'', ''top'', ''htop'', ''free'',
     ''uptime'', ''vmstat'', ''mpstat'', ''iostat'', ''sar'', ''nproc'', ''getconf'',
     ''lsof'', ''fuser'', ''lscpu'', ''lsmem'', ''lspci'', ''lsusb'', ''lshw'',
     ''dmidecode'', ''uname'', ''hostnamectl'', ''timedatectl'', ''localectl'',
     ''cat /proc/cpuinfo'', ''cat /proc/meminfo'', ''date'', ''cal'', ''uptime'',
     ''timedatectl'', ''w'', ''who'', ''users'', ''last'', ''lastlog'', ''finger'',
     ''pinky'', ''groups'', ''getent'', ''systemctl status'', ''systemctl is-active'',
     ''systemctl is-enabled'', ''systemctl list-units'', ''systemctl list-unit-files'',
     ''systemctl show'', ''systemctl cat'', ''service'', ''chkconfig'', ''journalctl'',
     ''dmesg'', ''ip'', ''ifconfig'', ''ss'', ''netstat'', ''ping'', ''ping6'', ''dig'',
     ''nslookup'', ''host'', ''resolvectl'', ''traceroute'', ''tracepath'', ''mtr'',
     ''arp'', ''route'', ''routel'', ''curl'', ''wget'', ''dpkg'', ''dpkg-query'',
     ''apt list'', ''apt show'', ''apt-cache'', ''apt-mark'', ''rpm'', ''yum list'',
     ''yum info'', ''dnf list'', ''dnf info'', ''pip list'', ''pip show'', ''pip freeze'',
     ''pip3 list'', ''pip3 show'', ''pip3 freeze'', ''conda list'', ''conda info'',
     ''snap list'', ''snap info'', ''flatpak list'', ''flatpak info'', ''npm list'',
     ''npm view'', ''gem list'', ''gem info'', ''docker ps'', ''docker images'',
     ''docker logs'', ''docker inspect'', ''docker stats'', ''docker top'',
     ''docker port'', ''docker diff'', ''docker history'', ''docker version'',
     ''docker info'', ''docker-compose ps'', ''docker-compose logs'',
     ''docker-compose config'', ''podman ps'', ''podman images'', ''podman logs'',
     ''podman inspect'', ''git status'', ''git log'', ''git diff'', ''git branch'',
     ''git remote'', ''git show'', ''git ls-files'', ''git ls-tree'', ''git rev-parse'',
     ''git config --list'', ''git config --get'', ''getfacl'', ''getcap'', ''lsattr'',
     ''namei'', ''stat'', ''nvidia-smi'', ''xhost'', ''xrandr'', ''xdpyinfo'',
     ''xwininfo'', ''loginctl'', ''w'', ''jq'', ''yq'', ''bc'', ''expr'', ''seq'', ''yes'',
     ''true'', ''false'', ''sleep'', ''timeout'', ''tee'', ''xargs'']"

record rules =
  forbidden_args :: "string list option"
  forbidden_patterns :: "matcher list option"
  allowed_args :: "string list option"
  allowed_targets :: "string list option"
  max_seconds :: "nat option"

definition no_rules :: rules where
  "no_rules = \<lparr>forbidden_args = None, forbidden_patterns = None, allowed_args = None,
     allowed_targets = None, max_seconds = None\<rparr>"

definition m_awk_system :: matcher where
  \<comment> \<open>\<open>system\s*\(\<close>\<close>
  "m_awk_system prev r =
    (if startswith r ''system'' then space_star (\<lambda>r1. startswith r1 ''('') (drop 6 r) else False)"

definition m_awk_print :: matcher where
  \<comment> \<open>\<open>print\s*>\<close>\<close>
  "m_awk_print prev r =
    (if startswith r ''print'' then space_star (\<lambda>r1. startswith r1 ''>'') (drop 5 r) else False)"

definition m_awk_getline :: matcher where
  \<comment> \<open>\<open>getline\s*<\<close>\<close>
  "m_awk_getline prev r =
    (if startswith r ''getline'' then space_star (\<lambda>r1. startswith r1 ''<'') (drop 7 r) else False)"

definition RESTRICTED_COMMANDS :: "string \<Rightarrow> rules option" where
  "RESTRICTED_COMMANDS b =
    (if b = ''sed'' then Some (no_rules\<lparr>forbidden_args := Some [''-i'', ''--in-place'']\<rparr>)
     else if b = ''awk'' then
       Some (no_rules\<lparr>forbidden_patterns := Some [m_awk_system, m_awk_print, m_awk_getline]\<rparr>)
     else if b = ''perl'' then
       Some (no_rules\<lparr>forbidden_args := Some [''-i'', ''-e.*unlink'', ''-e.*system'']\<rparr>)
     else if b = ''curl'' then
       Some (no_rules\<lparr>forbidden_args := Some [''-o'', ''-O'', ''--output'', ''-T'',
               ''--upload-file'', ''-X POST'', ''-X PUT'', ''-X DELETE''],
             allowed_args := Some [''-I'', ''-s'', ''-S'', ''-L'', ''-v'', ''--head'', ''-H'']\<rparr>)
     else if b = ''wget'' then
       Some (no_rules\<lparr>forbidden_args := Some [''--post-data'', ''--post-file'', ''--method''],
             allowed_args := Some [''--spider'', ''-q'', ''-S'', ''--server-response'']\<rparr>)
     else if b = ''tee'' then
       Some (no_rules\<lparr>allowed_targets := Some [''/dev/null'', ''/dev/stdout'', ''/dev/stderr'', ''-'']\<rparr>)
     else if b = ''sleep'' then Some (no_rules\<lparr>max_seconds := Some 10\<rparr>)
     else None)"

definition COMBO_ONLY_COMMANDS :: "string list" where
  "COMBO_ONLY_COMMANDS = [''xargs'', ''parallel'']"

definition DANGEROUS_COMMANDS :: "string list" where
  "DANGEROUS_COMMANDS = [
    ''rm'', ''rmdir'', ''shred'', ''truncate'', ''mv'', ''cp'', ''chmod'', ''chown'',
     ''chgrp'', ''chattr'', ''dd'', ''mkfs'', ''fdisk'', ''parted'', ''gdisk'', ''mkswap'',
     ''swapon'', ''swapoff'', ''mount'', ''umount'', ''reboot'', ''shutdown'',
     ''poweroff'', ''halt'', ''init'', ''systemctl start'', ''systemctl stop'',
     ''systemctl restart'', ''systemctl enable'', ''systemctl disable'', ''service start'',
     ''service stop'', ''service restart'', ''useradd'', ''userdel'', ''usermod'',
     ''groupadd'', ''groupdel'', ''groupmod'', ''passwd'', ''chpasswd'', ''newusers'',
     ''iptables'', ''ip6tables'', ''nft'', ''ufw'', ''ip link set'', ''ip addr add'',
     ''ip addr del'', ''ip route add'', ''ip route del'', ''ifconfig.*up'',
     ''ifconfig.*down'', ''apt install'', ''apt remove'', ''apt purge'',
     ''apt autoremove'', ''apt-get install'', ''apt-get remove'', ''apt-get purge'',
     ''yum install'', ''yum remove'', ''yum erase'', ''dnf install'', ''dnf remove'',
     ''dnf erase'', ''pip install'', ''pip uninstall'', ''pip3 install'',
     ''pip3 uninstall'', ''npm install'', ''npm uninstall'', ''docker run'',
     ''docker exec'', ''docker rm'', ''docker rmi'', ''docker stop'', ''docker kill'',
     ''docker start'', ''docker-compose up'', ''docker-compose down'',
     ''docker-compose rm'', ''kill'', ''killall'', ''pkill'', ''crontab'', ''at'',
     ''eval'', ''exec'', ''nc'', ''ncat'', ''netcat'', ''ssh'', ''scp'', ''rsync'']"

subsection \<open>The checks\<close>

definition get_base_command :: "string \<Rightarrow> string" where
  "get_base_command cmd0 =
    (let cmd = strip cmd0;
         cmd = (if startswith cmd ''sudo '' then strip (drop 5 cmd) else cmd)
     in case split_ws cmd of
          [] \<Rightarrow> []
        | first_word # _ \<Rightarrow>
            if CHR ''/'' \<in> set first_word then after_last_slash first_word else first_word)"

fun search_sleep :: "string \<Rightarrow> nat option" where
  \<comment> \<open>\<open>re.search(r"sleep\s+(\d+)", cmd)\<close>: the number of the leftmost match\<close>
  "search_sleep [] = None"
| "search_sleep (c # cs) =
    (if startswith (c # cs) ''sleep'' then
       (let r = drop 5 (c # cs); r1 = dropWhile is_space r in
        if r1 \<noteq> r \<and> takeWhile is_digit r1 \<noteq> []
        then Some (digits_val 0 (takeWhile is_digit r1))
        else search_sleep cs)
     else search_sleep cs)"

fun tee_targets_ok :: "string list \<Rightarrow> string list \<Rightarrow> bool" where
  \<comment> \<open>the loop over \<open>enumerate(parts)\<close>: the word after each \<open>tee\<close>\<close>
  "tee_targets_ok allowed (p # target # rest) =
    (if p = ''tee'' \<and> target \<notin> set allowed \<and> \<not> startswith target ''-'' then False
     else tee_targets_ok allowed (target # rest))"
| "tee_targets_ok allowed ps = True"

definition check_restricted_command :: "string \<Rightarrow> string \<Rightarrow> bool" where
  "check_restricted_command cmd base_cmd =
    (case RESTRICTED_COMMANDS base_cmd of
       None \<Rightarrow> True
     | Some rules \<Rightarrow>
        if (case forbidden_args rules of None \<Rightarrow> False
            | Some fs \<Rightarrow> list_ex (\<lambda>forbidden. str_in forbidden cmd) fs) then False
        else if (case forbidden_patterns rules of None \<Rightarrow> False
            | Some ps \<Rightarrow> list_ex (\<lambda>pattern. re_search pattern None cmd) ps) then False
        else if base_cmd = ''sleep'' \<and>
           (case max_seconds rules of None \<Rightarrow> False
            | Some mx \<Rightarrow> (case search_sleep cmd of None \<Rightarrow> False | Some n \<Rightarrow> n > mx)) then False
        else if base_cmd = ''tee'' \<and>
           (case allowed_targets rules of None \<Rightarrow> False
            | Some ts \<Rightarrow> length (split_ws cmd) > 1 \<and> \<not> tee_targets_ok ts (split_ws cmd)) then False
        else True)"

definition is_assignment :: "string \<Rightarrow> bool" where
  \<comment> \<open>\<open>re.match(r"^[A-Za-z_][A-Za-z0-9_]*=.*$", sub)\<close>; \<open>$\<close> is the end, or before a last LF\<close>
  "is_assignment sub =
    (case sub of [] \<Rightarrow> False
     | c # cs \<Rightarrow> (is_alpha c \<or> c = CHR ''_'') \<and>
        (let r = dropWhile is_word cs in
         if startswith r ''='' then dot_star (\<lambda>e. e = [] \<or> e = [CHR 0x0A]) (drop 1 r)
         else False))"

fun allow_loop :: "string list \<Rightarrow> string \<Rightarrow> string \<Rightarrow> string \<Rightarrow> bool" where
  \<comment> \<open>the loop \<open>for allowed in UNCONDITIONAL_ALLOW\<close> of \<open>_is_allowed_subcmd\<close>\<close>
  "allow_loop [] sub original_sub base_cmd = False"
| "allow_loop (allowed # rest) sub original_sub base_cmd =
    (if CHR '' '' \<in> set allowed then
       (if sub = allowed \<or> startswith sub (allowed @ '' '') then True
        else allow_loop rest sub original_sub base_cmd)
     else if base_cmd = allowed then
       (if RESTRICTED_COMMANDS base_cmd \<noteq> None
           \<and> \<not> check_restricted_command original_sub base_cmd then False
        else True)
     else allow_loop rest sub original_sub base_cmd)"

definition is_allowed_subcmd :: "string \<Rightarrow> bool" where
  "is_allowed_subcmd sub0 =
    (let sub = strip sub0 in
     if sub = [] then False
     else
       let original_sub = sub;
           sub = (if startswith sub ''sudo '' then strip (drop 5 sub) else sub);
           pure = (CHR ''='' \<in> set sub \<and> CHR '' '' \<notin> set sub)
       in
       if pure \<and> list_ex (\<lambda>x. str_in x sub) [''`'', ''$('', [CHR 0x0A], [CHR 0x0D], '';'']
       then False
       else if pure \<and> is_assignment sub then True
       else
         let base_cmd = get_base_command sub in
         if base_cmd = [] then False
         else allow_loop UNCONDITIONAL_ALLOW sub original_sub base_cmd)"

definition check_dangerous_patterns :: "string \<Rightarrow> bool" where
  \<comment> \<open>true when no pattern of the list is found\<close>
  "check_dangerous_patterns cmd = (\<not> list_ex (\<lambda>(txt, m). re_search m None cmd) DANGEROUS_PATTERNS)"

definition is_word_opt :: "char option \<Rightarrow> bool" where
  "is_word_opt p = (case p of None \<Rightarrow> False | Some c \<Rightarrow> is_word c)"

definition word_boundary :: "char option \<Rightarrow> string \<Rightarrow> bool" where
  \<comment> \<open>\<open>\b\<close>: exactly one of the characters before and after the position is a word character\<close>
  "word_boundary prev r = (is_word_opt prev \<noteq> is_word_opt (case r of [] \<Rightarrow> None | c # _ \<Rightarrow> Some c))"

definition m_bounded_word :: "string \<Rightarrow> matcher" where
  \<comment> \<open>\<open>\b\<close>, the escaped word, \<open>\b\<close>\<close>
  "m_bounded_word w prev r =
    (if startswith r w then
       word_boundary prev r \<and>
       word_boundary (if w = [] then prev else Some (last w)) (drop (length w) r)
     else False)"

definition dangerous_in :: "string \<Rightarrow> string \<Rightarrow> bool" where
  \<comment> \<open>one round of the loop over the deny list, on the lower-cased command\<close>
  "dangerous_in cmd_lower dangerous =
    (if CHR '' '' \<in> set dangerous then str_in dangerous cmd_lower
     else re_search (m_bounded_word dangerous) None cmd_lower)"

definition check_dangerous_commands :: "string \<Rightarrow> bool" where
  "check_dangerous_commands cmd = (\<not> list_ex (dangerous_in (lower cmd)) DANGEROUS_COMMANDS)"

definition sep_at :: "string \<Rightarrow> string option" where
  \<comment> \<open>a match of \<open>\s*\|\s*|\s*&&\s*\<close> at the start: what is left after it\<close>
  "sep_at r =
    (let r1 = dropWhile is_space r in
     if startswith r1 ''|'' then Some (dropWhile is_space (drop 1 r1))
     else if startswith r1 ''&&'' then Some (dropWhile is_space (drop 2 r1))
     else None)"

function re_split_acc :: "string \<Rightarrow> string \<Rightarrow> string list" where
  "re_split_acc acc [] = [rev acc]"
| "re_split_acc acc (c # cs) =
    (case sep_at (c # cs) of
       Some r \<Rightarrow> rev acc # re_split_acc [] r
     | None \<Rightarrow> re_split_acc (c # acc) cs)"
  by pat_completeness auto
termination
proof (relation "measure (\<lambda>(acc, s). length s)")
  show "wf (measure (\<lambda>(acc, s). length s))" by simp
next
  fix acc :: string and c cs
  show "((c # acc, cs), (acc, c # cs)) \<in> measure (\<lambda>(acc, s). length s)" by simp
next
  fix acc :: string and c cs r
  assume a: "sep_at (c # cs) = Some r"
  have le: "\<And>xs :: string. length (dropWhile is_space xs) \<le> length xs"
    by (simp add: length_dropWhile_le)
  define r1 where "r1 = dropWhile is_space (c # cs)"
  have r1: "length r1 \<le> Suc (length cs)" using le [of "c # cs"] by (simp add: r1_def)
  have "length r < Suc (length cs)"
  proof (cases "startswith r1 ''|''")
    case True
    then have "r = dropWhile is_space (drop 1 r1)" using a by (simp add: sep_at_def r1_def Let_def)
    moreover have "r1 \<noteq> []" using True by (cases r1) auto
    ultimately show ?thesis using le [of "drop 1 r1"] r1 by (cases r1) auto
  next
    case False
    then have s: "startswith r1 ''&&''" and "r = dropWhile is_space (drop 2 r1)"
      using a by (auto simp: sep_at_def r1_def Let_def split: if_splits)
    moreover have "r1 \<noteq> []" using s by (cases r1) auto
    ultimately show ?thesis using le [of "drop 2 r1"] r1 by (cases r1) auto
  qed
  then show "(([], r), (acc, c # cs)) \<in> measure (\<lambda>(acc, s). length s)" by simp
qed

definition re_split :: "string \<Rightarrow> string list" where
  \<comment> \<open>\<open>re.split(r"\s*\|\s*|\s*&&\s*", cmd)\<close>\<close>
  "re_split cmd = re_split_acc [] cmd"

fun check_parts :: "nat \<Rightarrow> string list \<Rightarrow> bool" where
  \<comment> \<open>the loop \<open>for i, sub in enumerate(parts)\<close> of \<open>is_safe_scout_cmd\<close>\<close>
  "check_parts i [] = True"
| "check_parts i (part # rest) =
    (let sub = strip part in
     if sub = [] then check_parts (Suc i) rest
     else if get_base_command sub \<in> set COMBO_ONLY_COMMANDS \<and> i = 0 then False
     else if \<not> is_allowed_subcmd sub then False
     else check_parts (Suc i) rest)"

definition is_safe_scout_cmd :: "string \<Rightarrow> bool" where
  "is_safe_scout_cmd cmd0 =
    (let cmd = strip cmd0 in
     if cmd = [] then False
     else if \<not> check_dangerous_patterns cmd then False
     else if \<not> check_dangerous_commands cmd then False
     else check_parts 0 (re_split cmd))"

definition msg_empty :: string where
  \<comment> \<open>the text "empty command" of the source, in UTF-8\<close>
  "msg_empty = [CHR 0xE7, CHR 0xA9, CHR 0xBA, CHR 0xE5, CHR 0x91, CHR 0xBD, CHR 0xE4, CHR 0xBB, CHR 0xA4]"

definition msg_pattern :: string where
  \<comment> \<open>"contains a dangerous pattern: "\<close>
  "msg_pattern = [CHR 0xE5, CHR 0x8C, CHR 0x85, CHR 0xE5, CHR 0x90, CHR 0xAB, CHR 0xE5, CHR 0x8D,
     CHR 0xB1, CHR 0xE9, CHR 0x99, CHR 0xA9, CHR 0xE6, CHR 0xA8, CHR 0xA1, CHR 0xE5, CHR 0xBC,
     CHR 0x8F] @ '': ''"

definition msg_command :: string where
  \<comment> \<open>"contains a dangerous command: "\<close>
  "msg_command = [CHR 0xE5, CHR 0x8C, CHR 0x85, CHR 0xE5, CHR 0x90, CHR 0xAB, CHR 0xE5, CHR 0x8D,
     CHR 0xB1, CHR 0xE9, CHR 0x99, CHR 0xA9, CHR 0xE5, CHR 0x91, CHR 0xBD, CHR 0xE4, CHR 0xBB,
     CHR 0xA4] @ '': ''"

definition msg_not_allowed :: string where
  \<comment> \<open>"command is not in the allow list: "\<close>
  "msg_not_allowed = [CHR 0xE5, CHR 0x91, CHR 0xBD, CHR 0xE4, CHR 0xBB, CHR 0xA4, CHR 0xE4, CHR 0xB8,
     CHR 0x8D, CHR 0xE5, CHR 0x9C, CHR 0xA8, CHR 0xE7, CHR 0x99, CHR 0xBD, CHR 0xE5, CHR 0x90,
     CHR 0x8D, CHR 0xE5, CHR 0x8D, CHR 0x95, CHR 0xE4, CHR 0xB8, CHR 0xAD] @ '': ''"

fun reason_parts :: "string list \<Rightarrow> string option" where
  \<comment> \<open>the loop \<open>for sub in parts\<close> of \<open>get_safety_reason\<close>\<close>
  "reason_parts [] = None"
| "reason_parts (part # rest) =
    (let sub = strip part in
     if sub \<noteq> [] \<and> \<not> is_allowed_subcmd sub then Some (msg_not_allowed @ get_base_command sub)
     else reason_parts rest)"

definition get_safety_reason :: "string \<Rightarrow> string option" where
  "get_safety_reason cmd0 =
    (let cmd = strip cmd0 in
     if cmd = [] then Some msg_empty
     else case find (\<lambda>(txt, m). re_search m None cmd) DANGEROUS_PATTERNS of
       Some (txt, m) \<Rightarrow> Some (msg_pattern @ txt)
     | None \<Rightarrow>
        (case find (dangerous_in (lower cmd)) DANGEROUS_COMMANDS of
           Some dangerous \<Rightarrow> Some (msg_command @ dangerous)
         | None \<Rightarrow> reason_parts (re_split cmd)))"

section \<open>The reconnaissance planner (domains.py)\<close>

datatype TaskComplexity = TRIVIAL | SIMPLE | MODERATE | COMPLEX

fun complexity_value :: "TaskComplexity \<Rightarrow> int" where
  \<comment> \<open>\<open>TaskComplexity\<close> is an \<open>IntEnum\<close>\<close>
  "complexity_value TRIVIAL = 1"
| "complexity_value SIMPLE = 2"
| "complexity_value MODERATE = 3"
| "complexity_value COMPLEX = 4"

definition sq :: string where
  \<comment> \<open>the single quote\<close>
  "sq = [CHR 0x27]"

definition dq :: string where
  \<comment> \<open>the double quote\<close>
  "dq = [CHR 0x22]"

definition quote_safe_char :: "char \<Rightarrow> bool" where
  \<comment> \<open>the complement of \<open>[^\w@%+=:,./-]\<close> under \<open>re.ASCII\<close>\<close>
  "quote_safe_char c = (is_word c \<or> c \<in> set ''@%+=:,./-'')"

definition q :: "string \<Rightarrow> string" where
  \<comment> \<open>\<open>shlex.quote\<close> of the standard library\<close>
  "q s =
    (if s = [] then sq @ sq
     else if list_all quote_safe_char s then s
     else sq @ concat (map (\<lambda>c. if c = CHR 0x27 then sq @ dq @ sq @ dq @ sq else [c]) s) @ sq)"

definition name_char :: "char \<Rightarrow> bool" where
  \<comment> \<open>the class \<open>[a-zA-Z0-9._:@+-]\<close>\<close>
  "name_char c = (is_alpha c \<or> is_digit c \<or> c \<in> set ''._:@+-'')"

definition name_body :: "string \<Rightarrow> bool" where
  "name_body s = (1 \<le> length s \<and> length s \<le> 128 \<and> list_all name_char s)"

definition safe_name :: "string option \<Rightarrow> string option" where
  \<comment> \<open>\<open>SAFE_NAME_REGEX.match\<close> on the stripped value; \<open>$\<close> is the end, or before a last LF\<close>
  "safe_name v =
    (let s = (case v of None \<Rightarrow> [] | Some x \<Rightarrow> strip x) in
     if s \<noteq> [] \<and> (name_body s \<or> (last s = CHR 0x0A \<and> name_body (butlast s))) then Some s
     else None)"

type_synonym entities = "string \<Rightarrow> string option"

definition truthy :: "string option \<Rightarrow> bool" where
  \<comment> \<open>the truth value of \<open>entities.get(k)\<close>: present and not empty\<close>
  "truthy v = (case v of None \<Rightarrow> False | Some s \<Rightarrow> s \<noteq> [])"

definition py_or :: "string option \<Rightarrow> string option \<Rightarrow> string option" where
  \<comment> \<open>\<open>a or b\<close>\<close>
  "py_or a b = (if truthy a then a else b)"

definition when_set :: "string option \<Rightarrow> (string \<Rightarrow> string list) \<Rightarrow> string list" where
  \<comment> \<open>\<open>if v: ...\<close>, the commands appended under the test\<close>
  "when_set v f = (case v of None \<Rightarrow> [] | Some s \<Rightarrow> if s = [] then [] else f s)"

definition file_commands :: "entities \<Rightarrow> string \<Rightarrow> string list" where
  "file_commands entities query =
    (let path = entities ''path'';
         filename = py_or (entities ''filename'') (entities ''target'')
     in when_set path (\<lambda>p. let q_path = q p in
          [''ls -la '' @ q_path, ''file '' @ q_path, ''stat '' @ q_path])
      @ (if truthy path then [] else when_set filename (\<lambda>f. let q_name = q f in
          [''find . -maxdepth 5 -name '' @ q_name @ '' -type f'',
           ''find /home -maxdepth 4 -name '' @ q_name @ '' -type f 2>/dev/null || true'',
           ''locate '' @ q_name @ '' 2>/dev/null | head -10 || true'']))
      @ (if truthy path \<or> truthy filename then [] else [''pwd'', ''ls -la'']))"

definition process_commands :: "entities \<Rightarrow> string \<Rightarrow> string list" where
  "process_commands entities query =
    (let target = py_or (entities ''target'') (entities ''process'');
         pid = entities ''pid'';
         port = entities ''port''
     in (if truthy pid then when_set pid (\<lambda>pid.
          [''ps -p '' @ pid @ '' -o pid,ppid,user,%cpu,%mem,stat,start,time,command'',
           ''ls -l /proc/'' @ pid @ ''/fd 2>/dev/null | head -20 || true''])
         else if truthy target then when_set target (\<lambda>t. let q_target = q t in
          [''pgrep -a '' @ q_target,
           ''ps aux | grep -i '' @ q_target @ '' | grep -v grep''])
         else if truthy port then when_set port (\<lambda>port.
          [''ss -tlnp '' @ sq @ ''sport = :'' @ port @ sq,
           ''lsof -i :'' @ port @ '' 2>/dev/null || true''])
         else [''ps aux --sort=-%mem | head -15'', ''ps aux --sort=-%cpu | head -15''])
      @ [''free -h'', ''uptime''])"

definition network_commands :: "entities \<Rightarrow> string \<Rightarrow> string list" where
  "network_commands entities query =
    (let port = entities ''port'';
         ip = entities ''ip'';
         domain = py_or (entities ''domain'') (entities ''target'')
     in [''ip -br addr'']
      @ when_set port (\<lambda>port.
          [''ss -tlnp '' @ sq @ ''sport = :'' @ port @ sq,
           ''ss -tlnp '' @ sq @ ''dport = :'' @ port @ sq])
      @ when_set ip (\<lambda>ip. [''ping -c 2 -W 2 '' @ ip])
      @ (if truthy ip then [] else when_set domain (\<lambda>d. let q_domain = q d in
          [''dig +short '' @ q_domain, ''ping -c 2 -W 2 '' @ q_domain]))
      @ (if truthy port then [] else [''ss -tlnH | head -20''])
      @ [''cat /etc/resolv.conf''])"

definition service_commands :: "entities \<Rightarrow> string \<Rightarrow> string list" where
  "service_commands entities query =
    (let service = py_or (entities ''service'') (entities ''target'') in
     if truthy service then
       when_set (safe_name service) (\<lambda>s_service.
         [''systemctl status '' @ s_service @ '' --no-pager -l'',
          ''systemctl is-active '' @ s_service,
          ''systemctl is-enabled '' @ s_service,
          ''journalctl -u '' @ s_service @ '' -n 30 --no-pager''])
     else
       [''systemctl list-units --type=service --state=running --no-pager'',
        ''systemctl list-units --type=service --state=failed --no-pager''])"

definition system_commands :: "entities \<Rightarrow> string \<Rightarrow> string list" where
  "system_commands entities query =
    [''uname -a'', ''cat /etc/os-release'', ''hostnamectl'',
     ''uptime'', ''free -h'', ''df -hT'', ''lscpu | head -20'', ''date'']"

definition software_commands :: "entities \<Rightarrow> string \<Rightarrow> string list" where
  "software_commands entities query =
    (let package = py_or (entities ''package'') (entities ''target'') in
     [''command -v apt dpkg pip pip3 snap flatpak conda'']
      @ (if truthy package then
           when_set (safe_name package) (\<lambda>s_pkg.
             [''dpkg -l '' @ s_pkg @ '' 2>/dev/null || true'',
              ''apt-cache policy '' @ s_pkg @ '' 2>/dev/null || true'',
              ''pip3 show '' @ s_pkg @ '' 2>/dev/null || true'',
              ''snap list '' @ s_pkg @ '' 2>/dev/null || true'',
              ''which '' @ s_pkg @ '' 2>/dev/null || true''])
         else []))"

definition storage_commands :: "entities \<Rightarrow> string \<Rightarrow> string list" where
  "storage_commands entities query =
    (let path = entities ''path'';
         target = entities ''target''
     in [''lsblk -o NAME,SIZE,TYPE,MOUNTPOINT,LABEL,MODEL,FSTYPE,UUID,PARTLABEL'',
         ''df -hT'',
         ''findmnt -l -o TARGET,SOURCE,FSTYPE,LABEL'']
      @ when_set path (\<lambda>p. let q_path = q p in
          [''df -hT '' @ q_path, ''du -sh '' @ q_path, ''ls -la '' @ q_path])
      @ when_set target (\<lambda>target. let q_target = q (''*'' @ target @ ''*'') in
          [''find /mnt /media /run/media -maxdepth 2 -type d -iname '' @ q_target
             @ '' 2>/dev/null || true'',
           ''blkid'',
           ''lsblk -o NAME,SIZE,MODEL,LABEL,MOUNTPOINT | grep -v '' @ sq @ ''loop'' @ bs
             @ ''|ram'' @ sq @ '' | grep -i '' @ q target
             @ '' || lsblk -e7 -o NAME,SIZE,MODEL,LABEL,MOUNTPOINT'']))"

definition container_commands :: "entities \<Rightarrow> string \<Rightarrow> string list" where
  "container_commands entities query =
    (let container = py_or (entities ''container'') (entities ''target'') in
     [''command -v docker podman docker-compose'']
      @ (if truthy container then when_set container (\<lambda>c. let q_container = q c in
           [''docker ps -a --filter name='' @ q_container @ '' --format '' @ sq
              @ ''table {{.ID}}'' @ bs @ ''t{{.Image}}'' @ bs @ ''t{{.Status}}'' @ bs
              @ ''t{{.Names}}'' @ sq,
            ''docker inspect '' @ q_container @ '' 2>/dev/null | head -50 || true'',
            ''docker logs --tail 30 '' @ q_container @ '' 2>/dev/null || true''])
         else
           [''docker ps --format '' @ sq @ ''table {{.ID}}'' @ bs @ ''t{{.Image}}'' @ bs
              @ ''t{{.Status}}'' @ bs @ ''t{{.Names}}'' @ sq,
            ''docker images --format '' @ sq @ ''table {{.Repository}}'' @ bs @ ''t{{.Tag}}''
              @ bs @ ''t{{.Size}}'' @ sq]))"

definition user_commands :: "entities \<Rightarrow> string \<Rightarrow> string list" where
  "user_commands entities query =
    (let user = py_or (entities ''user'') (entities ''target'');
         path = entities ''path''
     in [''id'', ''whoami'', ''groups'']
      @ when_set user (\<lambda>u. let q_user = q u in
          [''id '' @ q_user @ '' 2>/dev/null || true'', ''getent passwd '' @ q_user])
      @ when_set path (\<lambda>p. let q_path = q p in
          [''ls -la '' @ q_path, ''getfacl '' @ q_path @ '' 2>/dev/null || true'',
           ''stat '' @ q_path])
      @ [''w'', ''last -5''])"

definition log_commands :: "entities \<Rightarrow> string \<Rightarrow> string list" where
  "log_commands entities query =
    (let service = py_or (entities ''service'') (entities ''target'') in
     if truthy service then
       when_set (safe_name service) (\<lambda>s_service.
         [''journalctl -u '' @ s_service @ '' -n 50 --no-pager'',
          ''journalctl -u '' @ s_service @ '' -p err -n 20 --no-pager'',
          ''find /var/log -maxdepth 2 -name '' @ sq @ ''*'' @ s_service @ ''*'' @ sq
            @ '' -type f 2>/dev/null''])
     else
       [''journalctl -p err -n 30 --no-pager'',
        ''dmesg | tail -30'',
        ''ls -lt /var/log/*.log 2>/dev/null | head -10''])"

definition domain_methods :: "string \<Rightarrow> (entities \<Rightarrow> string \<Rightarrow> string list) option" where
  "domain_methods d =
    (if d = ''file'' then Some file_commands
     else if d = ''process'' then Some process_commands
     else if d = ''network'' then Some network_commands
     else if d = ''service'' then Some service_commands
     else if d = ''system'' then Some system_commands
     else if d = ''software'' then Some software_commands
     else if d = ''storage'' then Some storage_commands
     else if d = ''container'' then Some container_commands
     else if d = ''user'' then Some user_commands
     else if d = ''log'' then Some log_commands
     else None)"

fun unique_cmds :: "string list \<Rightarrow> string list \<Rightarrow> string list" where
  \<comment> \<open>the loop with the set \<open>seen\<close>: the first occurrence of each command\<close>
  "unique_cmds seen [] = []"
| "unique_cmds seen (c # cs) =
    (if c \<in> set seen then unique_cmds seen cs else c # unique_cmds (c # seen) cs)"

definition get_scout_commands ::
    "string list \<Rightarrow> entities \<Rightarrow> string \<Rightarrow> TaskComplexity \<Rightarrow> string list" where
  "get_scout_commands domains entities query complexity =
    (if complexity = TRIVIAL then []
     else
       let cmd_set = concat (map (\<lambda>domain.
             case domain_methods domain of
               None \<Rightarrow> []
             | Some method \<Rightarrow>
                 let domain_cmds = method entities query in
                 if complexity = SIMPLE then take 3 domain_cmds
                 else if complexity = MODERATE then take 5 domain_cmds
                 else domain_cmds) domains);
           max_cmds = (case complexity of SIMPLE \<Rightarrow> 5 | MODERATE \<Rightarrow> 10 | COMPLEX \<Rightarrow> 20
                       | TRIVIAL \<Rightarrow> 10)
       in take max_cmds (unique_cmds [] cmd_set))"

section \<open>The pipeline (graph.py)\<close>

subsection \<open>Chinese phrases of the tables, in UTF-8\<close>

definition zh_current_directory :: string where
  \<comment> \<open>"current directory"\<close>
  "zh_current_directory = [CHR 0xE5, CHR 0xBD, CHR 0x93, CHR 0xE5, CHR 0x89, CHR 0x8D, CHR 0xE7, CHR 0x9B,
     CHR 0xAE, CHR 0xE5, CHR 0xBD, CHR 0x95]"

definition zh_current_path :: string where
  \<comment> \<open>"current path"\<close>
  "zh_current_path = [CHR 0xE5, CHR 0xBD, CHR 0x93, CHR 0xE5, CHR 0x89, CHR 0x8D, CHR 0xE8, CHR 0xB7,
     CHR 0xAF, CHR 0xE5, CHR 0xBE, CHR 0x84]"

definition zh_where_am_i :: string where
  \<comment> \<open>"where am I"\<close>
  "zh_where_am_i = [CHR 0xE6, CHR 0x88, CHR 0x91, CHR 0xE5, CHR 0x9C, CHR 0xA8, CHR 0xE5, CHR 0x93,
     CHR 0xAA]"

definition zh_who_am_i :: string where
  \<comment> \<open>"who am I"\<close>
  "zh_who_am_i = [CHR 0xE6, CHR 0x88, CHR 0x91, CHR 0xE6, CHR 0x98, CHR 0xAF, CHR 0xE8, CHR 0xB0,
     CHR 0x81]"

definition zh_current_user :: string where
  \<comment> \<open>"current user"\<close>
  "zh_current_user = [CHR 0xE5, CHR 0xBD, CHR 0x93, CHR 0xE5, CHR 0x89, CHR 0x8D, CHR 0xE7, CHR 0x94,
     CHR 0xA8, CHR 0xE6, CHR 0x88, CHR 0xB7]"

definition zh_time :: string where
  \<comment> \<open>"time"\<close>
  "zh_time = [CHR 0xE6, CHR 0x97, CHR 0xB6, CHR 0xE9, CHR 0x97, CHR 0xB4]"

definition zh_date :: string where
  \<comment> \<open>"date"\<close>
  "zh_date = [CHR 0xE6, CHR 0x97, CHR 0xA5, CHR 0xE6, CHR 0x9C, CHR 0x9F]"

definition zh_what_hour :: string where
  \<comment> \<open>"what time"\<close>
  "zh_what_hour = [CHR 0xE5, CHR 0x87, CHR 0xA0, CHR 0xE7, CHR 0x82, CHR 0xB9]"

definition zh_when :: string where
  \<comment> \<open>"when"\<close>
  "zh_when = [CHR 0xE4, CHR 0xBB, CHR 0x80, CHR 0xE4, CHR 0xB9, CHR 0x88, CHR 0xE6, CHR 0x97,
     CHR 0xB6, CHR 0xE5, CHR 0x80, CHR 0x99]"

definition zh_running_time :: string where
  \<comment> \<open>"running time"\<close>
  "zh_running_time = [CHR 0xE8, CHR 0xBF, CHR 0x90, CHR 0xE8, CHR 0xA1, CHR 0x8C, CHR 0xE6, CHR 0x97,
     CHR 0xB6, CHR 0xE9, CHR 0x97, CHR 0xB4]"

definition zh_up_how_long :: string where
  \<comment> \<open>"how long since boot"\<close>
  "zh_up_how_long = [CHR 0xE5, CHR 0xBC, CHR 0x80, CHR 0xE6, CHR 0x9C, CHR 0xBA, CHR 0xE5, CHR 0xA4,
     CHR 0x9A, CHR 0xE4, CHR 0xB9, CHR 0x85]"

definition zh_host_name :: string where
  \<comment> \<open>"host name"\<close>
  "zh_host_name = [CHR 0xE4, CHR 0xB8, CHR 0xBB, CHR 0xE6, CHR 0x9C, CHR 0xBA, CHR 0xE5, CHR 0x90,
     CHR 0x8D]"

definition zh_system_version :: string where
  \<comment> \<open>"system version"\<close>
  "zh_system_version = [CHR 0xE7, CHR 0xB3, CHR 0xBB, CHR 0xE7, CHR 0xBB, CHR 0x9F, CHR 0xE7, CHR 0x89,
     CHR 0x88, CHR 0xE6, CHR 0x9C, CHR 0xAC]"

definition zh_kernel_version :: string where
  \<comment> \<open>"kernel version"\<close>
  "zh_kernel_version = [CHR 0xE5, CHR 0x86, CHR 0x85, CHR 0xE6, CHR 0xA0, CHR 0xB8, CHR 0xE7, CHR 0x89,
     CHR 0x88, CHR 0xE6, CHR 0x9C, CHR 0xAC]"

definition zh_user :: string where
  \<comment> \<open>"user"\<close>
  "zh_user = [CHR 0xE7, CHR 0x94, CHR 0xA8, CHR 0xE6, CHR 0x88, CHR 0xB7]"

definition zh_user_info :: string where
  \<comment> \<open>"user information"\<close>
  "zh_user_info = [CHR 0xE7, CHR 0x94, CHR 0xA8, CHR 0xE6, CHR 0x88, CHR 0xB7, CHR 0xE4, CHR 0xBF,
     CHR 0xA1, CHR 0xE6, CHR 0x81, CHR 0xAF]"

definition zh_disk_space :: string where
  \<comment> \<open>"disk space"\<close>
  "zh_disk_space = [CHR 0xE7, CHR 0xA3, CHR 0x81, CHR 0xE7, CHR 0x9B, CHR 0x98, CHR 0xE7, CHR 0xA9,
     CHR 0xBA, CHR 0xE9, CHR 0x97, CHR 0xB4]"

definition zh_disk_usage :: string where
  \<comment> \<open>"disk usage"\<close>
  "zh_disk_usage = [CHR 0xE7, CHR 0xA3, CHR 0x81, CHR 0xE7, CHR 0x9B, CHR 0x98, CHR 0xE4, CHR 0xBD,
     CHR 0xBF, CHR 0xE7, CHR 0x94, CHR 0xA8]"

definition zh_memory :: string where
  \<comment> \<open>"memory"\<close>
  "zh_memory = [CHR 0xE5, CHR 0x86, CHR 0x85, CHR 0xE5, CHR 0xAD, CHR 0x98]"

definition zh_memory_usage :: string where
  \<comment> \<open>"memory usage"\<close>
  "zh_memory_usage = [CHR 0xE5, CHR 0x86, CHR 0x85, CHR 0xE5, CHR 0xAD, CHR 0x98, CHR 0xE4, CHR 0xBD,
     CHR 0xBF, CHR 0xE7, CHR 0x94, CHR 0xA8]"

definition zh_situation :: string where
  \<comment> \<open>"situation, state of affairs"\<close>
  "zh_situation = [CHR 0xE6, CHR 0x83, CHR 0x85, CHR 0xE5, CHR 0x86, CHR 0xB5]"

definition zh_why :: string where
  \<comment> \<open>"why"\<close>
  "zh_why = [CHR 0xE4, CHR 0xB8, CHR 0xBA, CHR 0xE4, CHR 0xBB, CHR 0x80, CHR 0xE4, CHR 0xB9,
     CHR 0x88]"

definition zh_what_happened :: string where
  \<comment> \<open>"what is going on"\<close>
  "zh_what_happened = [CHR 0xE6, CHR 0x80, CHR 0x8E, CHR 0xE4, CHR 0xB9, CHR 0x88, CHR 0xE5, CHR 0x9B,
     CHR 0x9E, CHR 0xE4, CHR 0xBA, CHR 0x8B]"

definition zh_troubleshoot :: string where
  \<comment> \<open>"troubleshoot"\<close>
  "zh_troubleshoot = [CHR 0xE6, CHR 0x8E, CHR 0x92, CHR 0xE6, CHR 0x9F, CHR 0xA5]"

definition zh_diagnose :: string where
  \<comment> \<open>"diagnose"\<close>
  "zh_diagnose = [CHR 0xE8, CHR 0xAF, CHR 0x8A, CHR 0xE6, CHR 0x96, CHR 0xAD]"

definition zh_problem :: string where
  \<comment> \<open>"problem"\<close>
  "zh_problem = [CHR 0xE9, CHR 0x97, CHR 0xAE, CHR 0xE9, CHR 0xA2, CHR 0x98]"

definition zh_not_working :: string where
  \<comment> \<open>"not working"\<close>
  "zh_not_working = [CHR 0xE4, CHR 0xB8, CHR 0x8D, CHR 0xE5, CHR 0xB7, CHR 0xA5, CHR 0xE4, CHR 0xBD,
     CHR 0x9C]"

definition zh_failure :: string where
  \<comment> \<open>"failure"\<close>
  "zh_failure = [CHR 0xE5, CHR 0xA4, CHR 0xB1, CHR 0xE8, CHR 0xB4, CHR 0xA5]"

definition zh_error :: string where
  \<comment> \<open>"error"\<close>
  "zh_error = [CHR 0xE9, CHR 0x94, CHR 0x99, CHR 0xE8, CHR 0xAF, CHR 0xAF]"

definition zh_abnormal :: string where
  \<comment> \<open>"abnormal"\<close>
  "zh_abnormal = [CHR 0xE5, CHR 0xBC, CHR 0x82, CHR 0xE5, CHR 0xB8, CHR 0xB8]"

definition zh_fault :: string where
  \<comment> \<open>"fault"\<close>
  "zh_fault = [CHR 0xE6, CHR 0x95, CHR 0x85, CHR 0xE9, CHR 0x9A, CHR 0x9C]"

definition zh_unable :: string where
  \<comment> \<open>"unable"\<close>
  "zh_unable = [CHR 0xE6, CHR 0x97, CHR 0xA0, CHR 0xE6, CHR 0xB3, CHR 0x95]"

definition zh_cannot :: string where
  \<comment> \<open>"cannot"\<close>
  "zh_cannot = [CHR 0xE4, CHR 0xB8, CHR 0x8D, CHR 0xE8, CHR 0x83, CHR 0xBD]"

definition zh_cannot_connect :: string where
  \<comment> \<open>"cannot connect"\<close>
  "zh_cannot_connect = [CHR 0xE8, CHR 0xBF, CHR 0x9E, CHR 0xE4, CHR 0xB8, CHR 0x8D, CHR 0xE4, CHR 0xB8,
     CHR 0x8A]"

definition zh_cannot_open :: string where
  \<comment> \<open>"cannot open"\<close>
  "zh_cannot_open = [CHR 0xE6, CHR 0x89, CHR 0x93, CHR 0xE4, CHR 0xB8, CHR 0x8D, CHR 0xE5, CHR 0xBC,
     CHR 0x80]"

definition zh_cannot_start :: string where
  \<comment> \<open>"does not come up"\<close>
  "zh_cannot_start = [CHR 0xE8, CHR 0xB5, CHR 0xB7, CHR 0xE4, CHR 0xB8, CHR 0x8D, CHR 0xE6, CHR 0x9D,
     CHR 0xA5]"

definition zh_generation_failed :: string where
  \<comment> \<open>"command generation failed"\<close>
  "zh_generation_failed = [CHR 0xE5, CHR 0x91, CHR 0xBD, CHR 0xE4, CHR 0xBB, CHR 0xA4, CHR 0xE7, CHR 0x94,
     CHR 0x9F, CHR 0xE6, CHR 0x88, CHR 0x90, CHR 0xE5, CHR 0xA4, CHR 0xB1,
     CHR 0xE8, CHR 0xB4, CHR 0xA5]"

subsection \<open>Constants\<close>

definition SUPPORTED_DOMAINS :: "string list" where
  "SUPPORTED_DOMAINS = [''file'', ''process'', ''network'', ''service'', ''system'',
     ''software'', ''storage'', ''container'', ''user'', ''log'']"

definition TRIVIAL_PATTERNS :: "string list list" where
  \<comment> \<open>each pattern \<open>^(a|b|...)$\<close> as the list of its alternatives\<close>
  "TRIVIAL_PATTERNS = [
     [''pwd'', zh_current_directory, zh_current_path, zh_where_am_i],
     [''whoami'', zh_who_am_i, zh_current_user],
     [''date'', zh_time, zh_date, zh_what_hour, zh_when],
     [''uptime'', zh_running_time, zh_up_how_long],
     [''hostname'', zh_host_name],
     [''uname'', zh_system_version, zh_kernel_version],
     [''id'', zh_user @ ''id'', zh_user_info],
     [''df'', zh_disk_space, zh_disk_usage],
     [''free'', zh_memory, zh_memory_usage]]"

definition DIAGNOSTIC_KEYWORDS :: "string list" where
  "DIAGNOSTIC_KEYWORDS = [zh_why, zh_what_happened, zh_troubleshoot, zh_diagnose, zh_problem,
     zh_not_working, zh_failure, zh_error, zh_abnormal, zh_fault,
     zh_unable, zh_cannot, zh_cannot_connect, zh_cannot_open, zh_cannot_start]"

definition TRIVIAL_COMMANDS :: "(string \<times> string) list" where
  "TRIVIAL_COMMANDS = [
     (''pwd'', ''pwd''),
     (zh_current_directory, ''pwd''),
     (zh_current_path, ''pwd''),
     (zh_where_am_i, ''pwd''),
     (''whoami'', ''whoami''),
     (zh_who_am_i, ''whoami''),
     (zh_current_user, ''whoami''),
     (''date'', ''date''),
     (zh_time, ''date '' @ sq @ ''+%Y-%m-%d %H:%M:%S'' @ sq),
     (zh_date, ''date '' @ sq @ ''+%Y-%m-%d'' @ sq),
     (zh_what_hour, ''date '' @ sq @ ''+%H:%M:%S'' @ sq),
     (''uptime'', ''uptime''),
     (zh_running_time, ''uptime''),
     (zh_up_how_long, ''uptime''),
     (''hostname'', ''hostname''),
     (zh_host_name, ''hostname''),
     (''id'', ''id''),
     (zh_user @ ''id'', ''id''),
     (''df'', ''df -h''),
     (zh_disk_space, ''df -h''),
     (zh_disk_usage, ''df -h''),
     (''free'', ''free -h''),
     (zh_memory, ''free -h''),
     (zh_memory_usage, ''free -h'')]"

subsection \<open>Intent and state\<close>

text \<open>
  The intent is the dictionary parsed from the answer of the language model. Its entity
  values are strings. \<open>domains\<close> may be missing, a string or a list; \<open>complexity\<close> is an
  integer when present.
\<close>

datatype jdomains = DomAbsent | DomStr string | DomList "string list"

record raw_intent =
  r_domains :: jdomains
  r_action :: "string option"
  r_entities :: "entities option"
  r_complexity :: "int option"

record intent =
  i_domains :: "string list"
  i_action :: "string option"
  i_entities :: entities
  i_complexity :: "int option"
  i_parse_error :: "string option"
  i_llm_error :: "string option"

record state =
  s_query :: string
  s_intent :: "intent option"
  s_complexity :: "int option"
  s_context :: "string option"
  s_scout_info :: "string option"
  s_examples :: "string option"
  s_command :: "string option"
  s_error :: "string option"

datatype py_error = KeyError | ValueError

subsection \<open>Complexity\<close>

definition re_match_alternatives :: "string list \<Rightarrow> string \<Rightarrow> bool" where
  \<comment> \<open>\<open>re.match(r"^(a|b|...)$", s, re.IGNORECASE)\<close>; \<open>$\<close> is the end, or before a last LF\<close>
  "re_match_alternatives alts s =
    list_ex (\<lambda>alt. lower s = lower alt \<or> lower s = lower alt @ [CHR 0x0A]) alts"

definition assess_complexity :: "string \<Rightarrow> intent \<Rightarrow> TaskComplexity" where
  "assess_complexity query intent =
    (let query_lower = strip (lower query) in
     if list_ex (\<lambda>pattern. re_match_alternatives pattern query_lower) TRIVIAL_PATTERNS
     then TRIVIAL
     else if list_ex (\<lambda>keyword. str_in keyword query) DIAGNOSTIC_KEYWORDS then COMPLEX
     else
       let domains = i_domains intent in
       if length domains \<ge> 3 then COMPLEX
       else if length domains = 2 then MODERATE
       else
         let has_target = list_ex (\<lambda>k. truthy (i_entities intent k))
               [''target'', ''path'', ''filename'', ''port'', ''service'', ''container'']
         in if has_target then SIMPLE else MODERATE)"

subsection \<open>JSON repair\<close>

function sub_json_fence :: "string \<Rightarrow> string" where
  \<comment> \<open>\<open>re.sub(r"```json\s*", "", s)\<close>\<close>
  "sub_json_fence [] = []"
| "sub_json_fence (c # cs) =
    (if startswith (c # cs) ''```json'' then sub_json_fence (dropWhile is_space (drop 6 cs))
     else c # sub_json_fence cs)"
  by pat_completeness auto
termination
proof (relation "measure length")
  fix c :: char and cs :: string
  have "length (dropWhile is_space (drop 6 cs)) \<le> length (drop 6 cs)"
    by (rule length_dropWhile_le)
  then show "(dropWhile is_space (drop 6 cs), c # cs) \<in> measure length" by simp
qed simp_all

function sub_fence :: "string \<Rightarrow> string" where
  \<comment> \<open>\<open>re.sub(r"```\s*", "", s)\<close>\<close>
  "sub_fence [] = []"
| "sub_fence (c # cs) =
    (if startswith (c # cs) ''```'' then sub_fence (dropWhile is_space (drop 2 cs))
     else c # sub_fence cs)"
  by pat_completeness auto
termination
proof (relation "measure length")
  fix c :: char and cs :: string
  have "length (dropWhile is_space (drop 2 cs)) \<le> length (drop 2 cs)"
    by (rule length_dropWhile_le)
  then show "(dropWhile is_space (drop 2 cs), c # cs) \<in> measure length" by simp
qed simp_all

definition json_span :: "string \<Rightarrow> string option" where
  \<comment> \<open>\<open>re.search(r"\{[\s\S]*\}", s)\<close>: from the first \<open>{\<close> to the last \<open>}\<close> after it\<close>
  "json_span s =
    (let r = dropWhile (\<lambda>c. c \<noteq> CHR ''{'') s;
         t = rev (dropWhile (\<lambda>c. c \<noteq> CHR ''}'') (rev r))
     in if t = [] then None else Some t)"

function sub_comma :: "char \<Rightarrow> string \<Rightarrow> string" where
  \<comment> \<open>\<open>re.sub(r",\s*}", "}", s)\<close>, and the same for \<open>]\<close>\<close>
  "sub_comma closer [] = []"
| "sub_comma closer (c # cs) =
    (if c = CHR '','' \<and> startswith (dropWhile is_space cs) [closer]
     then closer # sub_comma closer (drop 1 (dropWhile is_space cs))
     else c # sub_comma closer cs)"
  by pat_completeness auto
termination
proof (relation "measure (\<lambda>(closer, s). length s)")
  fix closer c :: char and cs :: string
  have "length (dropWhile is_space cs) \<le> length cs" by (rule length_dropWhile_le)
  then show "((closer, drop 1 (dropWhile is_space cs)), (closer, c # cs))
      \<in> measure (\<lambda>(closer, s). length s)" by simp
qed simp_all

definition fix_json_string :: "string \<Rightarrow> string" where
  "fix_json_string s0 =
    (let s = sub_json_fence s0;
         s = sub_fence s;
         s = strip s;
         s = (case json_span s of Some m \<Rightarrow> m | None \<Rightarrow> s);
         s = map (\<lambda>c. if c = CHR 0x27 then CHR 0x22 else c) s;
         s = sub_comma CHR ''}'' s;
         s = sub_comma CHR '']'' s
     in s)"

definition parse_json_safe ::
    "(string \<Rightarrow> string + raw_intent) \<Rightarrow> string \<Rightarrow> raw_intent \<Rightarrow> raw_intent \<times> string option" where
  \<comment> \<open>\<open>json_loads\<close> stands for \<open>json.loads\<close>: the parsed value, or the text of the error\<close>
  "parse_json_safe json_loads s dflt =
    (case json_loads s of
       Inr v \<Rightarrow> (v, None)
     | Inl e \<Rightarrow>
        (case json_loads (fix_json_string s) of
           Inr v \<Rightarrow> (v, None)
         | Inl e2 \<Rightarrow> (dflt, Some e)))"

subsection \<open>The refine node\<close>

text \<open>
  The language model, \<open>json.loads\<close> and the regular-expression entity extractor are
  parameters of the node: \<open>llm\<close> is the outcome of \<open>_invoke_llm_with_retry\<close> on the intent
  prompt of a query, either the text of the answer or the text of the last error. The
  extractor \<open>extract_entities_from_query\<close> is left open because it searches the query for
  the members of a set in iteration order, which Python does not fix; the properties
  below hold for whatever it returns. The log entries, which carry the time of day and
  feed nothing else, are left out of the state.
\<close>

definition default_intent :: raw_intent where
  "default_intent = \<lparr>r_domains = DomList [''file''], r_action = Some ''unknown'',
     r_entities = Some Map.empty, r_complexity = Some 2\<rparr>"

definition normalize_domains :: "jdomains \<Rightarrow> string list" where
  "normalize_domains d =
    (let ds = (case d of
                 DomAbsent \<Rightarrow> [''file'']
               | DomStr s \<Rightarrow> if s = [] then [''file''] else [s]
               | DomList l \<Rightarrow> if l = [] then [''file''] else l);
         ds = filter (\<lambda>d. d \<in> set SUPPORTED_DOMAINS) ds
     in if ds = [] then [''file''] else ds)"

definition merge_entities :: "entities \<Rightarrow> entities \<Rightarrow> entities" where
  \<comment> \<open>the loop over \<open>regex_entities.items()\<close>: a regex value fills a key the model left empty\<close>
  "merge_entities ents regex_entities =
    (\<lambda>key. if truthy (regex_entities key) \<and> \<not> truthy (ents key) then regex_entities key
           else ents key)"

definition isdigit :: "string \<Rightarrow> bool" where
  \<comment> \<open>\<open>str.isdigit\<close>\<close>
  "isdigit s = (s \<noteq> [] \<and> list_all is_digit s)"

definition promote_target :: "entities \<Rightarrow> entities" where
  "promote_target ents0 =
    (let target = ents0 ''target'';
         t = (case target of None \<Rightarrow> [] | Some x \<Rightarrow> x);
         ents = (if truthy target \<and> startswith t ''/'' \<and> \<not> truthy (ents0 ''path'')
                 then ents0(''path'' := target) else ents0);
         ents = (if truthy target \<and> isdigit t \<and> \<not> truthy (ents ''port'')
                 then ents(''port'' := target) else ents)
     in ents)"

definition trivial_intent :: intent where
  "trivial_intent = \<lparr>i_domains = [''file''], i_action = Some ''simple command'',
     i_entities = Map.empty, i_complexity = None, i_parse_error = None, i_llm_error = None\<rparr>"

definition parsed_intent ::
    "(string \<Rightarrow> string + string) \<Rightarrow> (string \<Rightarrow> string + raw_intent) \<Rightarrow> string
      \<Rightarrow> raw_intent \<times> string option \<times> string option" where
  \<comment> \<open>the \<open>try\<close> block: the dictionary, with \<open>_parse_error\<close> and \<open>_llm_error\<close>\<close>
  "parsed_intent llm json_loads query =
    (case llm query of
       Inl e \<Rightarrow> (default_intent, None, Some e)
     | Inr result_str \<Rightarrow>
        (case parse_json_safe json_loads result_str default_intent of
           (v, None) \<Rightarrow> (v, None, None)
         | (v, Some err) \<Rightarrow>
             if err = [] then (v, None, None) else (default_intent, Some err, None)))"

definition refine_node ::
    "(string \<Rightarrow> string + string) \<Rightarrow> (string \<Rightarrow> string + raw_intent) \<Rightarrow> (string \<Rightarrow> entities)
      \<Rightarrow> state \<Rightarrow> state" where
  "refine_node llm json_loads extract_entities_from_query st =
    (let query = s_query st;
         query_normalized = lower (strip query)
     in case map_of TRIVIAL_COMMANDS query_normalized of
          Some cmd \<Rightarrow>
            st\<lparr>s_intent := Some trivial_intent,
               s_complexity := Some (complexity_value TRIVIAL),
               s_command := Some cmd\<rparr>
        | None \<Rightarrow>
            (case parsed_intent llm json_loads query of (raw, parse_error, llm_error) \<Rightarrow>
               let ents = (case r_entities raw of None \<Rightarrow> Map.empty | Some e \<Rightarrow> e);
                   ents = merge_entities ents (extract_entities_from_query query);
                   ents = promote_target ents;
                   intent = \<lparr>i_domains = normalize_domains (r_domains raw),
                             i_action = r_action raw,
                             i_entities = ents,
                             i_complexity = r_complexity raw,
                             i_parse_error = parse_error,
                             i_llm_error = llm_error\<rparr>;
                   llm_complexity = (case i_complexity intent of None \<Rightarrow> 2 | Some c \<Rightarrow> c);
                   assessed_complexity = assess_complexity query intent;
                   final_complexity = max llm_complexity (complexity_value assessed_complexity)
               in st\<lparr>s_intent := Some intent, s_complexity := Some final_complexity\<rparr>))"

subsection \<open>The retrieve node\<close>

definition retrieve_node :: "(string \<Rightarrow> string option) \<Rightarrow> string \<Rightarrow> state \<Rightarrow> state" where
  \<comment> \<open>\<open>kb_search\<close> is the knowledge base: \<open>None\<close> when it is absent or raises\<close>
  "retrieve_node kb_search system_context st =
    (let examples = (case kb_search (s_query st) of
                       None \<Rightarrow> ''No examples found.''
                     | Some results \<Rightarrow> if results = [] then ''No examples found.'' else results)
     in st\<lparr>s_context := Some system_context, s_examples := Some examples\<rparr>)"

subsection \<open>The scout node\<close>

datatype proc_outcome =
    Completed string string int
  | TimeoutExpired
  | OtherException string

record probe_result =
  p_cmd :: string
  p_stdout :: string
  p_stderr :: string
  p_rc :: int

definition str_of_reason :: "string option \<Rightarrow> string" where
  \<comment> \<open>an optional string inside an f-string\<close>
  "str_of_reason r = (case r of None \<Rightarrow> ''None'' | Some s \<Rightarrow> s)"

fun run_probes ::
    "(nat \<Rightarrow> string \<Rightarrow> proc_outcome) \<Rightarrow> nat \<Rightarrow> string list
      \<Rightarrow> probe_result list \<times> nat \<times> string list" where
  \<comment> \<open>the loop \<open>for cmd in scout_cmds\<close>: the results, \<open>failed_count\<close>, and the commands given
      to \<open>subprocess.run\<close>; \<open>run i cmd\<close> is what the subprocess of the \<open>i\<close>-th probe does\<close>
  "run_probes run i [] = ([], 0, [])"
| "run_probes run i (cmd # cmds) =
    (case run_probes run (Suc i) cmds of (results, failed_count, spawned) \<Rightarrow>
       if \<not> is_safe_scout_cmd cmd then
         (\<lparr>p_cmd = cmd, p_stdout = [],
            p_stderr = ''BLOCKED: '' @ str_of_reason (get_safety_reason cmd), p_rc = 126\<rparr> # results,
          failed_count, spawned)
       else
         (case run i cmd of
            Completed out err returncode \<Rightarrow>
              (\<lparr>p_cmd = cmd, p_stdout = out, p_stderr = err, p_rc = returncode\<rparr> # results,
               (if returncode \<noteq> 0 then Suc failed_count else failed_count), cmd # spawned)
          | TimeoutExpired \<Rightarrow>
              (\<lparr>p_cmd = cmd, p_stdout = [], p_stderr = ''TIMEOUT'', p_rc = 124\<rparr> # results,
               Suc failed_count, cmd # spawned)
          | OtherException e \<Rightarrow>
              (\<lparr>p_cmd = cmd, p_stdout = [], p_stderr = e, p_rc = 1\<rparr> # results,
               Suc failed_count, cmd # spawned)))"

definition join :: "string \<Rightarrow> string list \<Rightarrow> string" where
  \<comment> \<open>\<open>sep.join(xs)\<close>\<close>
  "join sep xs = (case xs of [] \<Rightarrow> [] | x # rest \<Rightarrow> x @ concat (map (\<lambda>y. sep @ y) rest))"

definition nl :: string where
  "nl = [CHR 0x0A]"

definition extract_facts ::
    "(probe_result list \<Rightarrow> entities \<Rightarrow> string \<Rightarrow> string list \<times> string list)
      \<Rightarrow> probe_result list \<Rightarrow> entities \<Rightarrow> string \<Rightarrow> string" where
  \<comment> \<open>\<open>distill\<close> is the loop over the results, which fills \<open>facts\<close> and \<open>raw_outputs\<close>\<close>
  "extract_facts distill results ents query =
    (case distill results ents query of (facts, raw_outputs) \<Rightarrow>
       let facts_str = (if facts = [] then ''No structured facts extracted.'' else join nl facts);
           raw_str = (if raw_outputs = [] then ''No raw output.''
                      else join (nl @ ''---'' @ nl) (take 15 raw_outputs))
       in ''[EXTRACTED FACTS]'' @ nl @ facts_str @ nl @ nl @ ''[RAW SCOUT OUTPUT]'' @ nl @ raw_str)"

definition task_complexity :: "int \<Rightarrow> TaskComplexity option" where
  \<comment> \<open>\<open>TaskComplexity(n)\<close>; \<open>None\<close> is its \<open>ValueError\<close>\<close>
  "task_complexity n =
    (if n = 1 then Some TRIVIAL else if n = 2 then Some SIMPLE
     else if n = 3 then Some MODERATE else if n = 4 then Some COMPLEX else None)"

definition WARNING :: string where
  "WARNING = ''[WARNING] Most scout commands failed.''"

definition scout_node ::
    "(nat \<Rightarrow> string \<Rightarrow> proc_outcome)
      \<Rightarrow> (probe_result list \<Rightarrow> entities \<Rightarrow> string \<Rightarrow> string list \<times> string list)
      \<Rightarrow> state \<Rightarrow> py_error + state \<times> string list" where
  \<comment> \<open>the new state and the commands spawned. The test \<open>failed_count > len(scout_cmds) * 0.7\<close>
      is on floats in the source; for fewer than 90 commands (the planner returns at most
      20) it is the test on integers written here\<close>
  "scout_node run distill st =
    (if s_complexity st = Some (complexity_value TRIVIAL) then
       Inr (st\<lparr>s_scout_info := Some ''[TRIVIAL TASK - No scout needed]''\<rparr>, [])
     else case s_intent st of
       None \<Rightarrow> Inl KeyError
     | Some intent \<Rightarrow>
        (case task_complexity (case s_complexity st of None \<Rightarrow> complexity_value MODERATE | Some c \<Rightarrow> c) of
           None \<Rightarrow> Inl ValueError
         | Some complexity \<Rightarrow>
            let query = s_query st;
                scout_cmds = get_scout_commands (i_domains intent) (i_entities intent) query complexity
            in if scout_cmds = [] then
                 Inr (st\<lparr>s_scout_info := Some ''[No scout commands generated]''\<rparr>, [])
               else
                 (case run_probes run 0 scout_cmds of (exec_results, failed_count, spawned) \<Rightarrow>
                    let warning = (if 10 * failed_count > 7 * length scout_cmds then WARNING else []);
                        facts = extract_facts distill exec_results (i_entities intent) query;
                        facts = (if warning \<noteq> [] then warning @ nl @ nl @ facts else facts)
                    in Inr (st\<lparr>s_scout_info := Some facts\<rparr>, spawned))))"

subsection \<open>The generate node\<close>

fun split_on :: "char \<Rightarrow> string \<Rightarrow> string \<Rightarrow> string list" where
  \<comment> \<open>\<open>s.split(sep)\<close> for a separator of one character, with the piece read so far\<close>
  "split_on sep acc [] = [rev acc]"
| "split_on sep acc (c # cs) =
    (if c = sep then rev acc # split_on sep [] cs else split_on sep (c # acc) cs)"

fun sub_fence_end :: "string \<Rightarrow> string" where
  \<comment> \<open>\<open>re.sub(r"\s*```$", "", s)\<close>; \<open>$\<close> is the end, or before a last LF\<close>
  "sub_fence_end [] = []"
| "sub_fence_end (c # cs) =
    (let r = dropWhile is_space (c # cs) in
     if r = ''```'' then []
     else if r = ''```'' @ nl then nl
     else c # sub_fence_end cs)"

definition unfence :: "string \<Rightarrow> string" where
  \<comment> \<open>the answer without its fenced-code wrapper\<close>
  "unfence result_str =
    (let command = strip result_str;
         command = (if startswith command ''```bash'' then dropWhile is_space (drop 7 command)
                    else command);
         command = (if startswith command ''```'' then dropWhile is_space (drop 3 command)
                    else command);
         command = sub_fence_end command
     in strip command)"

definition candidate_lines :: "string \<Rightarrow> string list" where
  \<comment> \<open>\<open>[l.strip() for l in command.split("\n") if l.strip() and not l.startswith("#")]\<close>\<close>
  "candidate_lines command =
    map strip (filter (\<lambda>l. strip l \<noteq> [] \<and> \<not> startswith l ''#'') (split_on (CHR 0x0A) [] command))"

definition clean_command :: "string \<Rightarrow> string" where
  "clean_command result_str =
    (let command = unfence result_str in
     if CHR 0x0A \<in> set command \<and> \<not> startswith command ''echo'' then
       (case candidate_lines command of [] \<Rightarrow> command | l # ls \<Rightarrow> l)
     else command)"

definition generate_node :: "(state \<Rightarrow> string + string) \<Rightarrow> state \<Rightarrow> state" where
  \<comment> \<open>\<open>llm\<close> is the outcome of \<open>_invoke_llm_with_retry\<close> on the generation prompt of a state\<close>
  "generate_node llm st =
    (if truthy (s_command st) then st
     else case llm st of
       Inr result_str \<Rightarrow> st\<lparr>s_command := Some (clean_command result_str)\<rparr>
     | Inl e \<Rightarrow> st\<lparr>s_command := Some (''echo '' @ dq @ zh_generation_failed @ '': '' @ e @ dq),
                   s_error := Some e\<rparr>)"

subsection \<open>The graph\<close>

record env =
  e_llm_intent :: "string \<Rightarrow> string + string"
  e_json_loads :: "string \<Rightarrow> string + raw_intent"
  e_extract_entities :: "string \<Rightarrow> entities"
  e_kb_search :: "string \<Rightarrow> string option"
  e_system_context :: string
  e_run :: "nat \<Rightarrow> string \<Rightarrow> proc_outcome"
  e_distill :: "probe_result list \<Rightarrow> entities \<Rightarrow> string \<Rightarrow> string list \<times> string list"
  e_llm_generate :: "state \<Rightarrow> string + string"

definition initial_state :: "string \<Rightarrow> state" where
  \<comment> \<open>\<open>{"query": query}\<close>\<close>
  "initial_state query = \<lparr>s_query = query, s_intent = None, s_complexity = None,
     s_context = None, s_scout_info = None, s_examples = None, s_command = None,
     s_error = None\<rparr>"

definition should_skip_scout :: "state \<Rightarrow> string" where
  "should_skip_scout st =
    (if s_complexity st = Some (complexity_value TRIVIAL) then ''generate'' else ''scout'')"

definition run_graph :: "env \<Rightarrow> string \<Rightarrow> py_error + state \<times> string list" where
  \<comment> \<open>refine, retrieve, scout unless the task is trivial, generate: the final state and the
      probes spawned on the way\<close>
  "run_graph env query =
    (let st = refine_node (e_llm_intent env) (e_json_loads env) (e_extract_entities env)
                (initial_state query);
         st = retrieve_node (e_kb_search env) (e_system_context env) st
     in if should_skip_scout st = ''generate'' then
          Inr (generate_node (e_llm_generate env) st, [])
        else
          (case scout_node (e_run env) (e_distill env) st of
             Inl err \<Rightarrow> Inl err
           | Inr (st, spawned) \<Rightarrow> Inr (generate_node (e_llm_generate env) st, spawned)))"

section \<open>Properties of the safety gate\<close>

subsection \<open>Substrings, stripping and searching\<close>

lemma startswith_iff: "startswith s p \<longleftrightarrow> (\<exists>b. s = p @ b)"
  by (induction s p rule: startswith.induct) auto

lemma str_in_iff: "str_in p s \<longleftrightarrow> (\<exists>a b. s = a @ p @ b)"
proof (induction s)
  case Nil
  then show ?case by auto
next
  case (Cons c cs)
  show ?case
  proof
    assume "str_in p (c # cs)"
    then consider "startswith (c # cs) p" | "str_in p cs" by auto
    then show "\<exists>a b. c # cs = a @ p @ b"
    proof cases
      case 1
      then obtain b where "c # cs = p @ b" by (auto simp: startswith_iff)
      then have "c # cs = [] @ p @ b" by simp
      then show ?thesis by blast
    next
      case 2
      then obtain a b where "cs = a @ p @ b" using Cons.IH by auto
      then have "c # cs = (c # a) @ p @ b" by simp
      then show ?thesis by blast
    qed
  next
    assume "\<exists>a b. c # cs = a @ p @ b"
    then obtain a b where ab: "c # cs = a @ p @ b" by auto
    show "str_in p (c # cs)"
    proof (cases a)
      case Nil
      then have "startswith (c # cs) p" using ab by (auto simp: startswith_iff)
      then show ?thesis by simp
    next
      case (Cons x xs)
      then have "cs = xs @ p @ b" using ab by simp
      then have "str_in p cs" using Cons.IH by auto
      then show ?thesis by simp
    qed
  qed
qed

lemma dropWhile_keeps:
  assumes "w \<noteq> []" "\<not> P (hd w)"
  shows "\<exists>a'. dropWhile P (a @ w @ b) = a' @ w @ b"
proof (induction a)
  case Nil
  from assms have "dropWhile P (w @ b) = w @ b" by (cases w) auto
  then have "dropWhile P ([] @ w @ b) = [] @ w @ b" by simp
  then show ?case by blast
next
  case (Cons x xs)
  show ?case
  proof (cases "P x")
    case True
    then show ?thesis using Cons by simp
  next
    case False
    then have "dropWhile P ((x # xs) @ w @ b) = (x # xs) @ w @ b" by simp
    then show ?thesis by blast
  qed
qed

lemma strip_keeps:
  assumes "str_in p c" "p \<noteq> []" "\<not> is_space (hd p)" "\<not> is_space (last p)"
  shows "str_in p (strip c)"
proof -
  obtain a b where c: "c = a @ p @ b" using assms(1) by (auto simp: str_in_iff)
  obtain a' where 1: "dropWhile is_space c = a' @ p @ b"
    using dropWhile_keeps [of p is_space a b] assms(2,3) c by auto
  have "rev (a' @ p @ b) = rev b @ rev p @ rev a'" by simp
  moreover have "rev p \<noteq> []" "\<not> is_space (hd (rev p))" using assms by (auto simp: hd_rev)
  ultimately obtain b' where 2: "dropWhile is_space (rev (a' @ p @ b)) = b' @ rev p @ rev a'"
    using dropWhile_keeps [of "rev p" is_space "rev b" "rev a'"] by auto
  have "strip c = a' @ p @ rev b'" using 1 2 by (simp add: strip_def)
  then show ?thesis by (auto simp: str_in_iff)
qed

lemma re_search_lit: "str_in p s \<Longrightarrow> re_search (lit p) prev s"
  by (induction s arbitrary: prev) (auto simp: lit_def)

lemma re_search_mono:
  "(\<And>prev r. startswith r p \<Longrightarrow> m prev r) \<Longrightarrow> str_in p s \<Longrightarrow> p \<noteq> [] \<Longrightarrow> re_search m prev s"
  by (induction s arbitrary: prev) auto

lemma redirect_dev_null: "startswith r ''> /dev/null'' \<Longrightarrow> m_redirect_out prev r"
  by (auto simp: startswith_iff m_redirect_out_def is_space_def)

lemma pattern_found:
  "(txt, m) \<in> set DANGEROUS_PATTERNS \<Longrightarrow> re_search m None s \<Longrightarrow> \<not> check_dangerous_patterns s"
  unfolding check_dangerous_patterns_def list_ex_iff by auto

subsection \<open>Restricted commands\<close>

text \<open>
  Claim C4. A sub-fragment whose base token is one of the restricted commands, and which
  has no Tier-1 pattern and no deny-listed command, should be accepted exactly when it
  passes the per-rule check of its token; a \<open>sed\<close> without \<open>-i\<close> and \<open>--in-place\<close> should
  be accepted. The code reaches the per-rule check only for a base token that is also in
  \<open>UNCONDITIONAL_ALLOW\<close>, and \<open>sed\<close>, \<open>awk\<close> and \<open>perl\<close> are not in that list: the fragment
  \<open>sed s/a/b/ f\<close> passes the pattern check, the deny list and the rule of \<open>sed\<close>, and the
  gate rejects it.
\<close>

theorem sed_without_inplace_rejected:
  "check_dangerous_patterns ''sed s/a/b/ f'' \<and> check_dangerous_commands ''sed s/a/b/ f''
     \<and> get_base_command ''sed s/a/b/ f'' = ''sed''
     \<and> check_restricted_command ''sed s/a/b/ f'' ''sed''
     \<and> \<not> is_safe_scout_cmd ''sed s/a/b/ f''"
  by code_simp

subsection \<open>Verdict and reason\<close>

text \<open>
  Claim C10. The verdict and the reason should agree: the gate accepts a fragment exactly
  when \<open>get_safety_reason\<close> returns \<open>None\<close>. \<open>get_safety_reason\<close> has no counterpart of the
  rule that \<open>xargs\<close> and \<open>parallel\<close> may not come first: the gate rejects \<open>xargs ls\<close>, and
  the reason of \<open>xargs ls\<close> is \<open>None\<close>.
\<close>

theorem xargs_first_rejected_without_reason:
  "\<not> is_safe_scout_cmd ''xargs ls'' \<and> get_safety_reason ''xargs ls'' = None"
  by code_simp

subsection \<open>Tier-1 patterns\<close>

lemma literal_pattern_rejected:
  assumes "str_in p cmd" and "p \<noteq> []" and "\<not> is_space (hd p)" and "\<not> is_space (last p)"
    and "(txt, lit p) \<in> set DANGEROUS_PATTERNS"
  shows "\<not> is_safe_scout_cmd cmd"
proof -
  have "str_in p (strip cmd)" using assms(1-4) by (rule strip_keeps)
  then have "re_search (lit p) None (strip cmd)" by (rule re_search_lit)
  then have "\<not> check_dangerous_patterns (strip cmd)" using assms(5) pattern_found by blast
  then show ?thesis by (simp add: is_safe_scout_cmd_def Let_def)
qed

lemma dev_null_rejected:
  assumes a: "str_in ''> /dev/null'' cmd"
  shows "\<not> is_safe_scout_cmd cmd"
proof -
  have "str_in ''> /dev/null'' (strip cmd)"
    by (rule strip_keeps [OF a]) (simp_all add: is_space_def)
  then have "re_search m_redirect_out None (strip cmd)"
    using re_search_mono [of "''> /dev/null''" m_redirect_out] redirect_dev_null by blast
  moreover have "(''>'' @ bs @ ''s*[^|&]'', m_redirect_out) \<in> set DANGEROUS_PATTERNS"
    by (simp add: DANGEROUS_PATTERNS_def)
  ultimately have "\<not> check_dangerous_patterns (strip cmd)" by (rule pattern_found [rotated])
  then show ?thesis by (simp add: is_safe_scout_cmd_def Let_def)
qed

text \<open>
  The gate strips the fragment before it looks for the patterns. A pattern that matches
  only with the help of leading or trailing whitespace is therefore not seen: \<open>>\s*[^|&]\<close>
  matches in \<open>ls > \<close> (the character after \<open>>\<close> is the space), and the gate accepts that
  fragment, which it reads as \<open>ls >\<close>. A trailing newline is lost the same way.
\<close>

theorem tier1_unstripped_counterexample:
  "\<not> check_dangerous_patterns ''ls > '' \<and> is_safe_scout_cmd ''ls > ''"
  by code_simp

text \<open>
  Claim C3, amended. Every fragment whose stripped form matches a pattern of
  \<open>DANGEROUS_PATTERNS\<close> is rejected. In particular every fragment that contains a
  backquote, \<open>$(\<close>, \<open><(\<close>, \<open>>(\<close>, \<open>>>\<close>, \<open>||\<close>, \<open>;\<close> or \<open>> /dev/null\<close> is
  rejected, since stripping does not touch these.
\<close>

theorem tier1_pattern_rejected:
  "(\<not> check_dangerous_patterns (strip cmd) \<longrightarrow> \<not> is_safe_scout_cmd cmd)
   \<and> (list_ex (\<lambda>p. str_in p cmd)
         [''`'', ''$('', ''<('', ''>('', ''>>'', ''||'', '';'', ''> /dev/null'']
       \<longrightarrow> \<not> is_safe_scout_cmd cmd)"
proof (intro conjI impI)
  assume "\<not> check_dangerous_patterns (strip cmd)"
  then show "\<not> is_safe_scout_cmd cmd" by (simp add: is_safe_scout_cmd_def Let_def)
next
  assume "list_ex (\<lambda>p. str_in p cmd)
         [''`'', ''$('', ''<('', ''>('', ''>>'', ''||'', '';'', ''> /dev/null'']"
  then consider "str_in ''`'' cmd" | "str_in ''$('' cmd" | "str_in ''<('' cmd" | "str_in ''>('' cmd"
    | "str_in ''>>'' cmd" | "str_in ''||'' cmd" | "str_in '';'' cmd" | "str_in ''> /dev/null'' cmd"
    by (auto simp del: str_in.simps)
  then show "\<not> is_safe_scout_cmd cmd"
  proof cases
    case 1
    then show ?thesis
      by (rule literal_pattern_rejected [of _ _ "''`''"]) (simp_all add: is_space_def DANGEROUS_PATTERNS_def)
  next
    case 2
    then show ?thesis
      by (rule literal_pattern_rejected [of _ _ "bs @ ''$'' @ bs @ ''(''"]) (simp_all add: is_space_def DANGEROUS_PATTERNS_def)
  next
    case 3
    then show ?thesis
      by (rule literal_pattern_rejected [of _ _ "''<'' @ bs @ ''(''"]) (simp_all add: is_space_def DANGEROUS_PATTERNS_def)
  next
    case 4
    then show ?thesis
      by (rule literal_pattern_rejected [of _ _ "''>'' @ bs @ ''(''"]) (simp_all add: is_space_def DANGEROUS_PATTERNS_def)
  next
    case 5
    then show ?thesis
      by (rule literal_pattern_rejected [of _ _ "''>>'' @ bs @ ''s*''"]) (simp_all add: is_space_def DANGEROUS_PATTERNS_def)
  next
    case 6
    then show ?thesis
      by (rule literal_pattern_rejected [of _ _ "bs @ ''|'' @ bs @ ''|''"]) (simp_all add: is_space_def DANGEROUS_PATTERNS_def)
  next
    case 7
    then show ?thesis
      by (rule literal_pattern_rejected [of _ _ "'';'' @ bs @ ''s*''"]) (simp_all add: is_space_def DANGEROUS_PATTERNS_def)
  next
    case 8
    then show ?thesis by (rule dev_null_rejected)
  qed
qed

theorem tier1_pattern_rejected_witness:
  "\<not> check_dangerous_patterns (strip ''ls -l 2> /dev/null'')
   \<and> list_ex (\<lambda>p. str_in p ''ls -l 2> /dev/null'')
        [''`'', ''$('', ''<('', ''>('', ''>>'', ''||'', '';'', ''> /dev/null'']
   \<and> \<not> is_safe_scout_cmd ''ls -l 2> /dev/null''"
proof -
  have h1: "\<not> check_dangerous_patterns (strip ''ls -l 2> /dev/null'')" by code_simp
  have h2: "list_ex (\<lambda>p. str_in p ''ls -l 2> /dev/null'')
        [''`'', ''$('', ''<('', ''>('', ''>>'', ''||'', '';'', ''> /dev/null'']" by code_simp
  from tier1_pattern_rejected [of "''ls -l 2> /dev/null''"] h2
  have "\<not> is_safe_scout_cmd ''ls -l 2> /dev/null''" by blast
  with h1 h2 show ?thesis by blast
qed

section \<open>Properties of the planner\<close>

lemma file_probes:
  "get_scout_commands [''file''] (Map.empty(''filename'' \<mapsto> ''notes.txt'')) ''find notes.txt'' SIMPLE
     = [''find . -maxdepth 5 -name notes.txt -type f'',
        ''find /home -maxdepth 4 -name notes.txt -type f 2>/dev/null || true'',
        ''locate notes.txt 2>/dev/null | head -10 || true'']"
  by code_simp

lemma file_probe_verdicts:
  "is_safe_scout_cmd ''find . -maxdepth 5 -name notes.txt -type f''"
  "\<not> is_safe_scout_cmd ''find /home -maxdepth 4 -name notes.txt -type f 2>/dev/null || true''"
  "\<not> is_safe_scout_cmd ''locate notes.txt 2>/dev/null | head -10 || true''"
  by code_simp+

lemma file_probe_reasons:
  "get_safety_reason ''find /home -maxdepth 4 -name notes.txt -type f 2>/dev/null || true''
     = Some (msg_pattern @ ''>'' @ bs @ ''s*[^|&]'')"
  "get_safety_reason ''locate notes.txt 2>/dev/null | head -10 || true''
     = Some (msg_pattern @ ''>'' @ bs @ ''s*[^|&]'')"
  by code_simp+

text \<open>
  Claim C1. Every probe that \<open>get_scout_commands\<close> returns should pass the safety gate.
  Many templates of the planner end in \<open>2>/dev/null\<close> or \<open>|| true\<close>, both Tier-1 patterns
  of the gate. For the domain \<open>file\<close> and a file name, the planner returns three probes,
  and the gate rejects the second and the third.
\<close>

theorem planner_probe_rejected:
  "get_scout_commands [''file''] (Map.empty(''filename'' \<mapsto> ''notes.txt'')) ''find notes.txt'' SIMPLE
     = [''find . -maxdepth 5 -name notes.txt -type f'',
        ''find /home -maxdepth 4 -name notes.txt -type f 2>/dev/null || true'',
        ''locate notes.txt 2>/dev/null | head -10 || true'']
   \<and> is_safe_scout_cmd ''find . -maxdepth 5 -name notes.txt -type f''
   \<and> \<not> is_safe_scout_cmd ''find /home -maxdepth 4 -name notes.txt -type f 2>/dev/null || true''
   \<and> \<not> is_safe_scout_cmd ''locate notes.txt 2>/dev/null | head -10 || true''"
  using file_probes file_probe_verdicts by simp

section \<open>Properties of the executor\<close>

subsection \<open>The loop over the probes\<close>

text \<open>
  The deny list is a set in the source, and the reason names the first entry found in
  it. In \<open>rm -rf /tmp/x\<close> only the entry \<open>rm\<close> is found (\<open>rm_only_match\<close>), so its
  reason does not depend on the order of the set.
\<close>

lemma run_probes_length:
  "run_probes run i cmds = (results, failed_count, spawned) \<Longrightarrow> length results = length cmds"
proof (induction cmds arbitrary: i results failed_count spawned)
  case Nil
  then show ?case by simp
next
  case (Cons c cs)
  obtain rs f sp where t: "run_probes run (Suc i) cs = (rs, f, sp)" by (cases "run_probes run (Suc i) cs") auto
  then have "length rs = length cs" using Cons.IH by blast
  then show ?case using Cons.prems t by (auto split: proc_outcome.splits if_splits)
qed

lemma run_probes_spawned_safe:
  "run_probes run i cmds = (results, failed_count, spawned) \<Longrightarrow> c \<in> set spawned \<Longrightarrow>
   is_safe_scout_cmd c"
proof (induction cmds arbitrary: i results failed_count spawned)
  case Nil
  then show ?case by simp
next
  case (Cons x xs)
  obtain rs f sp where t: "run_probes run (Suc i) xs = (rs, f, sp)" by (cases "run_probes run (Suc i) xs") auto
  then have "c \<in> set sp \<Longrightarrow> is_safe_scout_cmd c" using Cons.IH by blast
  then show ?case using Cons.prems t by (auto split: proc_outcome.splits if_splits)
qed

lemma run_probes_blocked:
  "run_probes run i cmds = (results, failed_count, spawned) \<Longrightarrow>
   k < length cmds \<Longrightarrow> \<not> is_safe_scout_cmd (cmds ! k) \<Longrightarrow>
   results ! k =
     \<lparr>p_cmd = cmds ! k, p_stdout = [],
      p_stderr = ''BLOCKED: '' @ str_of_reason (get_safety_reason (cmds ! k)), p_rc = 126\<rparr>"
proof (induction cmds arbitrary: i k results failed_count spawned)
  case Nil
  then show ?case by simp
next
  case (Cons c cs)
  obtain rs f sp where t: "run_probes run (Suc i) cs = (rs, f, sp)" by (cases "run_probes run (Suc i) cs") auto
  show ?case
  proof (cases k)
    case 0
    then show ?thesis using Cons.prems t by auto
  next
    case (Suc j)
    then have "rs ! j =
      \<lparr>p_cmd = cs ! j, p_stdout = [],
       p_stderr = ''BLOCKED: '' @ str_of_reason (get_safety_reason (cs ! j)), p_rc = 126\<rparr>"
      using Cons.prems Cons.IH [OF t, of j] by simp
    then show ?thesis using Suc Cons.prems(1) t by (auto split: proc_outcome.splits if_splits)
  qed
qed

lemma rm_rejected: "\<not> is_safe_scout_cmd ''rm -rf /tmp/x''"
  by code_simp

lemma rm_reason: "get_safety_reason ''rm -rf /tmp/x'' = Some (msg_command @ ''rm'')"
  by code_simp

lemma rm_only_match:
  "filter (dangerous_in (lower ''rm -rf /tmp/x'')) DANGEROUS_COMMANDS = [''rm'']"
  by code_simp

lemma rm_mentioned: "str_in ''rm'' (''BLOCKED: '' @ msg_command @ ''rm'')"
  by code_simp

text \<open>
  Claim C2. In the loop of \<open>scout_node\<close>, a probe that fails the safety gate gets a result
  with \<open>rc = 126\<close>, empty output and the text \<open>BLOCKED:\<close> followed by the reason of
  \<open>get_safety_reason\<close>, and it is not among the commands given to a subprocess, whatever
  the subprocesses of the other probes do. For the probe \<open>rm -rf /tmp/x\<close> the recorded
  text contains \<open>rm\<close>.
\<close>

theorem blocked_probe_recorded:
  "k < length cmds \<Longrightarrow> \<not> is_safe_scout_cmd (cmds ! k) \<Longrightarrow>
   run_probes run i cmds = (results, failed_count, spawned) \<Longrightarrow>
     length results = length cmds
   \<and> results ! k = \<lparr>p_cmd = cmds ! k, p_stdout = [],
        p_stderr = ''BLOCKED: '' @ str_of_reason (get_safety_reason (cmds ! k)), p_rc = 126\<rparr>
   \<and> cmds ! k \<notin> set spawned
   \<and> (cmds ! k = ''rm -rf /tmp/x'' \<longrightarrow> str_in ''rm'' (p_stderr (results ! k)))"
proof -
  assume k: "k < length cmds" and u: "\<not> is_safe_scout_cmd (cmds ! k)"
    and r: "run_probes run i cmds = (results, failed_count, spawned)"
  have 1: "length results = length cmds" using run_probes_length [OF r] by simp
  have 2: "results ! k = \<lparr>p_cmd = cmds ! k, p_stdout = [],
        p_stderr = ''BLOCKED: '' @ str_of_reason (get_safety_reason (cmds ! k)), p_rc = 126\<rparr>"
    using run_probes_blocked [OF r k u] by simp
  have 3: "cmds ! k \<notin> set spawned"
    using run_probes_spawned_safe [OF r] u by auto
  have 4: "cmds ! k = ''rm -rf /tmp/x'' \<longrightarrow> str_in ''rm'' (p_stderr (results ! k))"
    using 2 rm_reason rm_mentioned by (simp add: str_of_reason_def)
  from 1 2 3 4 show ?thesis by blast
qed

theorem blocked_probe_recorded_witness:
  "run_probes (\<lambda>i c. Completed ''out'' [] 0) 0 [''ls'', ''rm -rf /tmp/x'']
     = ([\<lparr>p_cmd = ''ls'', p_stdout = ''out'', p_stderr = [], p_rc = 0\<rparr>,
         \<lparr>p_cmd = ''rm -rf /tmp/x'', p_stdout = [],
          p_stderr = ''BLOCKED: '' @ msg_command @ ''rm'', p_rc = 126\<rparr>], 0, [''ls''])
   \<and> str_in ''rm'' (''BLOCKED: '' @ msg_command @ ''rm'')"
proof -
  have ls: "is_safe_scout_cmd ''ls''" by code_simp
  have r: "run_probes (\<lambda>i c. Completed ''out'' [] 0) 0 [''ls'', ''rm -rf /tmp/x'']
     = ([\<lparr>p_cmd = ''ls'', p_stdout = ''out'', p_stderr = [], p_rc = 0\<rparr>,
         \<lparr>p_cmd = ''rm -rf /tmp/x'', p_stdout = [],
          p_stderr = ''BLOCKED: '' @ msg_command @ ''rm'', p_rc = 126\<rparr>], 0, [''ls''])"
    using ls rm_rejected rm_reason by (simp add: str_of_reason_def)
  have k: "(1::nat) < length [''ls'', ''rm -rf /tmp/x'']" by simp
  have u: "\<not> is_safe_scout_cmd ([''ls'', ''rm -rf /tmp/x''] ! 1)" using rm_rejected by simp
  from blocked_probe_recorded [OF k u r]
  have "[''ls'', ''rm -rf /tmp/x''] ! 1 = ''rm -rf /tmp/x'' \<longrightarrow>
    str_in ''rm'' (p_stderr ([\<lparr>p_cmd = ''ls'', p_stdout = ''out'', p_stderr = [], p_rc = 0\<rparr>,
         \<lparr>p_cmd = ''rm -rf /tmp/x'', p_stdout = [],
          p_stderr = ''BLOCKED: '' @ msg_command @ ''rm'', p_rc = 126\<rparr>] ! 1))"
    by blast
  then have "str_in ''rm'' (''BLOCKED: '' @ msg_command @ ''rm'')" by simp
  with r show ?thesis by blast
qed

subsection \<open>The warning\<close>

lemma extract_facts_no_warning: "\<not> startswith (extract_facts distill rs ents query) WARNING"
  by (cases "distill rs ents query") (simp add: extract_facts_def WARNING_def Let_def)

text \<open>
  Claim C7. The facts should carry the warning exactly when more than 70% of the probe
  results have \<open>rc \<noteq> 0\<close>, rejections by the gate (\<open>rc = 126\<close>) included. The branch of
  the loop that records a rejection does not count it in \<open>failed_count\<close>, as the branches
  for a non-zero exit, a timeout and an exception do. For the three probes of the
  planner for a file name, with a first probe that exits with 1, all three results
  have \<open>rc \<noteq> 0\<close> (1, 126 and 126), \<open>failed_count\<close> is 1, and the facts have no warning.
\<close>

theorem blocked_probes_not_counted:
  "scout_node (\<lambda>i c. Completed [] ''failed'' 1) distill
     ((initial_state ''find notes.txt'')
        \<lparr>s_intent := Some \<lparr>i_domains = [''file''], i_action = None,
             i_entities = Map.empty(''filename'' \<mapsto> ''notes.txt''), i_complexity = Some 2,
             i_parse_error = None, i_llm_error = None\<rparr>,
         s_complexity := Some 2\<rparr>)
   = Inr ((initial_state ''find notes.txt'')
        \<lparr>s_intent := Some \<lparr>i_domains = [''file''], i_action = None,
             i_entities = Map.empty(''filename'' \<mapsto> ''notes.txt''), i_complexity = Some 2,
             i_parse_error = None, i_llm_error = None\<rparr>,
         s_complexity := Some 2,
         s_scout_info := Some (extract_facts distill
           [\<lparr>p_cmd = ''find . -maxdepth 5 -name notes.txt -type f'', p_stdout = [],
              p_stderr = ''failed'', p_rc = 1\<rparr>,
            \<lparr>p_cmd = ''find /home -maxdepth 4 -name notes.txt -type f 2>/dev/null || true'',
              p_stdout = [], p_stderr = ''BLOCKED: '' @ msg_pattern @ ''>'' @ bs @ ''s*[^|&]'',
              p_rc = 126\<rparr>,
            \<lparr>p_cmd = ''locate notes.txt 2>/dev/null | head -10 || true'',
              p_stdout = [], p_stderr = ''BLOCKED: '' @ msg_pattern @ ''>'' @ bs @ ''s*[^|&]'',
              p_rc = 126\<rparr>]
           (Map.empty(''filename'' \<mapsto> ''notes.txt'')) ''find notes.txt'')\<rparr>,
        [''find . -maxdepth 5 -name notes.txt -type f''])
   \<and> \<not> startswith (extract_facts distill
           [\<lparr>p_cmd = ''find . -maxdepth 5 -name notes.txt -type f'', p_stdout = [],
              p_stderr = ''failed'', p_rc = 1\<rparr>,
            \<lparr>p_cmd = ''find /home -maxdepth 4 -name notes.txt -type f 2>/dev/null || true'',
              p_stdout = [], p_stderr = ''BLOCKED: '' @ msg_pattern @ ''>'' @ bs @ ''s*[^|&]'',
              p_rc = 126\<rparr>,
            \<lparr>p_cmd = ''locate notes.txt 2>/dev/null | head -10 || true'',
              p_stdout = [], p_stderr = ''BLOCKED: '' @ msg_pattern @ ''>'' @ bs @ ''s*[^|&]'',
              p_rc = 126\<rparr>]
           (Map.empty(''filename'' \<mapsto> ''notes.txt'')) ''find notes.txt'') WARNING"
  by (simp add: scout_node_def initial_state_def task_complexity_def file_probes
      file_probe_verdicts file_probe_reasons str_of_reason_def extract_facts_no_warning
      Let_def)

section \<open>Properties of the pipeline\<close>

subsection \<open>Complexity\<close>

lemma is_space_of_char: "is_space c \<Longrightarrow> (of_char c :: nat) \<le> 32"
  by (auto simp: is_space_def)

lemma is_space_lower_char: "is_space (lower_char c) = is_space c"
proof (cases "is_upper c")
  case False
  then show ?thesis by (simp add: lower_char_def)
next
  case True
  then have r: "65 \<le> (of_char c :: nat)" "(of_char c :: nat) \<le> 90"
    by (simp_all add: is_upper_def Let_def)
  then have 1: "\<not> is_space c" using is_space_of_char [of c] by auto
  have "(of_char (char_of (of_char c + (32::nat)) :: char) :: nat) = of_char c + 32"
    using r by (simp add: of_char_of)
  then have 2: "\<not> is_space (char_of (of_char c + (32::nat)))"
    using is_space_of_char [of "char_of (of_char c + (32::nat))"] r by auto
  from 1 2 True show ?thesis by (simp add: lower_char_def)
qed

lemma dropWhile_space_lower: "dropWhile is_space (lower s) = lower (dropWhile is_space s)"
  by (induction s) (auto simp: lower_def is_space_lower_char)

lemma strip_lower: "strip (lower s) = lower (strip s)"
proof -
  have "rev (lower s) = lower (rev s)" for s by (simp add: lower_def rev_map)
  then show ?thesis by (simp add: strip_def dropWhile_space_lower)
qed

lemma trivial_keys_in_patterns:
  "(k, cmd) \<in> set TRIVIAL_COMMANDS \<Longrightarrow> \<exists>pattern \<in> set TRIVIAL_PATTERNS. k \<in> set pattern"
  by (auto simp: TRIVIAL_COMMANDS_def TRIVIAL_PATTERNS_def)

lemma re_match_alternative: "alt \<in> set alts \<Longrightarrow> re_match_alternatives alts alt"
  by (auto simp: re_match_alternatives_def list_ex_iff)

lemma trivial_key_assessed:
  assumes "map_of TRIVIAL_COMMANDS (lower (strip query)) = Some cmd"
  shows "assess_complexity query intent = TRIVIAL"
proof -
  have "(lower (strip query), cmd) \<in> set TRIVIAL_COMMANDS" using assms by (rule map_of_SomeD)
  then obtain pattern where "pattern \<in> set TRIVIAL_PATTERNS" "lower (strip query) \<in> set pattern"
    using trivial_keys_in_patterns by blast
  then have "list_ex (\<lambda>pattern. re_match_alternatives pattern (lower (strip query))) TRIVIAL_PATTERNS"
    using re_match_alternative by (auto simp: list_ex_iff)
  then show ?thesis by (simp add: assess_complexity_def strip_lower)
qed

text \<open>
  Claim C5. Whatever the language model answers, however the answer parses and whatever
  the entity extractor finds, \<open>refine_node\<close> stores an intent and a complexity that is at
  least the heuristic value \<open>assess_complexity\<close> of the query and the stored intent; and
  for a query that is not a key of the trivial table, so that the model is asked, the
  stored complexity is the maximum of the complexity the intent declares (2 when it
  declares none) and the heuristic value.
\<close>

theorem refine_complexity_max:
  assumes "st' = refine_node llm json_loads extract_entities st"
  shows "\<exists>intent c. s_intent st' = Some intent \<and> s_complexity st' = Some c
     \<and> complexity_value (assess_complexity (s_query st) intent) \<le> c
     \<and> (map_of TRIVIAL_COMMANDS (lower (strip (s_query st))) = None \<longrightarrow>
          c = max (case i_complexity intent of None \<Rightarrow> 2 | Some d \<Rightarrow> d)
                  (complexity_value (assess_complexity (s_query st) intent)))"
proof (cases "map_of TRIVIAL_COMMANDS (lower (strip (s_query st)))")
  case (Some cmd)
  then have "assess_complexity (s_query st) trivial_intent = TRIVIAL"
    by (rule trivial_key_assessed)
  then show ?thesis using Some assms by (simp add: refine_node_def Let_def)
next
  case None
  obtain raw pe le where p: "parsed_intent llm json_loads (s_query st) = (raw, pe, le)"
    by (cases "parsed_intent llm json_loads (s_query st)") auto
  show ?thesis using None assms p by (simp add: refine_node_def Let_def)
qed

theorem refine_complexity_max_witness:
  "map_of TRIVIAL_COMMANDS (lower (strip ''list big files'')) = None
   \<and> s_complexity (refine_node (\<lambda>q. Inr ''{}'')
        (\<lambda>s. Inr \<lparr>r_domains = DomList [''file''], r_action = None, r_entities = None,
                   r_complexity = Some 1\<rparr>)
        (\<lambda>q. Map.empty) (initial_state ''list big files'')) = Some 3
   \<and> (\<exists>intent. s_intent (refine_node (\<lambda>q. Inr ''{}'')
        (\<lambda>s. Inr \<lparr>r_domains = DomList [''file''], r_action = None, r_entities = None,
                   r_complexity = Some 1\<rparr>)
        (\<lambda>q. Map.empty) (initial_state ''list big files'')) = Some intent
      \<and> i_complexity intent = Some 1
      \<and> complexity_value (assess_complexity ''list big files'' intent) = 3)"
proof -
  let ?st = "refine_node (\<lambda>q. Inr ''{}'')
        (\<lambda>s. Inr \<lparr>r_domains = DomList [''file''], r_action = None, r_entities = None,
                   r_complexity = Some 1\<rparr>)
        (\<lambda>q. Map.empty) (initial_state ''list big files'')"
  have h: "map_of TRIVIAL_COMMANDS (lower (strip ''list big files'')) = None" by code_simp
  have q: "s_query (initial_state ''list big files'') = ''list big files''"
    by (simp add: initial_state_def)
  have c: "s_complexity ?st = Some 3" by code_simp
  have d: "map_option i_complexity (s_intent ?st) = Some (Some 1)" by code_simp
  from refine_complexity_max [OF refl, of "\<lambda>q. Inr ''{}''" _ "\<lambda>q. Map.empty" "initial_state ''list big files''"]
  obtain intent k where i: "s_intent ?st = Some intent" and k: "s_complexity ?st = Some k"
    and m: "map_of TRIVIAL_COMMANDS (lower (strip ''list big files'')) = None \<longrightarrow>
          k = max (case i_complexity intent of None \<Rightarrow> 2 | Some d \<Rightarrow> d)
                  (complexity_value (assess_complexity ''list big files'' intent))"
    unfolding q by blast
  from i d have ic: "i_complexity intent = Some 1" by simp
  from k c have "k = 3" by simp
  with m h ic have "complexity_value (assess_complexity ''list big files'' intent) = 3"
    by (simp add: max_def split: if_splits)
  with h c i ic show ?thesis by blast
qed

subsection \<open>The trivial fast path\<close>

lemma trivial_path:
  assumes "map_of TRIVIAL_COMMANDS (lower (strip query)) = Some cmd" "cmd \<noteq> []"
  shows "\<exists>st. run_graph env query = Inr (st, []) \<and> s_complexity st = Some 1
     \<and> s_command st = Some cmd"
  using assms
  by (simp add: run_graph_def refine_node_def retrieve_node_def should_skip_scout_def
      generate_node_def truthy_def initial_state_def Let_def)

lemma lookup_pwd: "map_of TRIVIAL_COMMANDS (lower (strip ''pwd'')) = Some ''pwd''"
  by code_simp

lemma lookup_disk_usage: "map_of TRIVIAL_COMMANDS (lower (strip zh_disk_usage)) = Some ''df -h''"
  by code_simp

text \<open>
  The table is looked up with the stripped, lower-cased query itself. The query "disk
  usage situation" (the key "disk usage" followed by two more characters) is not a key:
  the model is asked, and with a model that cannot be reached for the intent and that
  answers \<open>du -sh /\<close> for the command, the graph spawns the two probes of the file
  domain and the final command is \<open>du -sh /\<close>.
\<close>

theorem disk_usage_situation_not_trivial:
  "map_of TRIVIAL_COMMANDS (lower (strip (zh_disk_usage @ zh_situation))) = None
   \<and> (case run_graph
          \<lparr>e_llm_intent = (\<lambda>q. Inl ''unreachable''), e_json_loads = (\<lambda>s. Inl ''no JSON''),
           e_extract_entities = (\<lambda>q. Map.empty), e_kb_search = (\<lambda>q. None),
           e_system_context = ''Linux'', e_run = (\<lambda>i c. Completed [] [] 0),
           e_distill = (\<lambda>rs ents q. ([], [])), e_llm_generate = (\<lambda>st. Inr ''du -sh /'')\<rparr>
          (zh_disk_usage @ zh_situation) of
        Inl err \<Rightarrow> False
      | Inr (st, spawned) \<Rightarrow>
          s_command st = Some ''du -sh /'' \<and> s_complexity st = Some 3
          \<and> spawned = [''pwd'', ''ls -la''])"
  by code_simp

text \<open>
  Claim C6, amended. For the query \<open>pwd\<close>, and for the query "disk usage" that is a key
  of the table, whatever the environment does: the graph ends without an error, the
  complexity is \<open>TRIVIAL\<close>, no probe is spawned, and the final command is \<open>pwd\<close> and
  \<open>df -h\<close>.
\<close>

theorem trivial_fast_path:
  "(\<exists>st. run_graph env ''pwd'' = Inr (st, []) \<and> s_complexity st = Some (complexity_value TRIVIAL)
       \<and> s_command st = Some ''pwd'')
   \<and> (\<exists>st. run_graph env zh_disk_usage = Inr (st, []) \<and> s_complexity st = Some (complexity_value TRIVIAL)
       \<and> s_command st = Some ''df -h'')"
  using trivial_path [OF lookup_pwd, of env] trivial_path [OF lookup_disk_usage, of env] by simp

subsection \<open>The generated command\<close>

lemma split_on_no_sep:
  "l \<in> set (split_on sep acc s) \<Longrightarrow> sep \<notin> set acc \<Longrightarrow> sep \<notin> set l"
proof (induction s arbitrary: acc)
  case Nil
  then show ?case by auto
next
  case (Cons c cs)
  show ?case
  proof (cases "c = sep")
    case True
    then have "l = rev acc \<or> l \<in> set (split_on sep [] cs)" using Cons.prems(1) by simp
    then show ?thesis using Cons.IH [of "[]"] Cons.prems(2) by auto
  next
    case False
    then have "l \<in> set (split_on sep (c # acc) cs)" using Cons.prems(1) by simp
    then show ?thesis using Cons.IH [of "c # acc"] Cons.prems(2) False by auto
  qed
qed

lemma set_strip: "set (strip s) \<subseteq> set s"
proof -
  have "set (dropWhile is_space (rev (dropWhile is_space s))) \<subseteq> set (rev (dropWhile is_space s))"
    by (rule set_dropWhileD [THEN subsetI])
  moreover have "set (dropWhile is_space s) \<subseteq> set s" by (rule set_dropWhileD [THEN subsetI])
  ultimately show ?thesis by (auto simp: strip_def)
qed

lemma candidate_lines_no_newline:
  assumes "l \<in> set (candidate_lines command)"
  shows "CHR 0x0A \<notin> set l"
proof -
  obtain l0 where "l0 \<in> set (split_on (CHR 0x0A) [] command)" "l = strip l0"
    using assms by (auto simp: candidate_lines_def)
  moreover from this have "CHR 0x0A \<notin> set l0" using split_on_no_sep [of l0 "CHR 0x0A" "[]" command] by simp
  ultimately show ?thesis using set_strip [of l0] by auto
qed

text \<open>
  The node takes the first line only when the answer does not start with \<open>echo\<close>: an
  answer of two lines that starts with \<open>echo\<close> is stored whole, with its newline.
\<close>

theorem echo_answer_kept_whole:
  "s_command (generate_node (\<lambda>st. Inr (''echo hello'' @ [CHR 0x0A] @ ''ls'')) (initial_state ''greet''))
     = Some (''echo hello'' @ [CHR 0x0A] @ ''ls'')
   \<and> CHR 0x0A \<in> set (''echo hello'' @ [CHR 0x0A] @ ''ls'')"
  by code_simp

text \<open>
  Claim C8, amended. When \<open>generate_node\<close> sets the command from an answer of the model
  whose text, without the fenced-code wrapper, does not start with \<open>echo\<close>, and which has
  a line that is not blank and does not start with \<open>#\<close> (or has no newline at all), the
  stored command has no newline: it is the first such line, stripped, when the text has
  several lines, and the text itself when it has one.
\<close>

theorem generated_command_first_line:
  assumes "\<not> truthy (s_command st)" and "llm st = Inr result_str"
    and "\<not> startswith (unfence result_str) ''echo''"
    and "candidate_lines (unfence result_str) \<noteq> [] \<or> CHR 0x0A \<notin> set (unfence result_str)"
  shows "\<exists>c. s_command (generate_node llm st) = Some c \<and> CHR 0x0A \<notin> set c
    \<and> c = (if CHR 0x0A \<in> set (unfence result_str) then hd (candidate_lines (unfence result_str))
           else unfence result_str)"
proof (cases "CHR 0x0A \<in> set (unfence result_str)")
  case False
  then show ?thesis using assms by (simp add: generate_node_def clean_command_def Let_def)
next
  case True
  then obtain l ls where c: "candidate_lines (unfence result_str) = l # ls"
    using assms(4) by (cases "candidate_lines (unfence result_str)") auto
  then have "CHR 0x0A \<notin> set l" using candidate_lines_no_newline [of l "unfence result_str"] by simp
  then show ?thesis using True c assms by (simp add: generate_node_def clean_command_def Let_def)
qed

theorem generated_command_first_line_witness:
  "\<not> truthy (s_command (initial_state ''list files''))
   \<and> \<not> startswith (unfence (''```bash'' @ nl @ ''# list'' @ nl @ ''ls -la'' @ nl @ ''```'')) ''echo''
   \<and> candidate_lines (unfence (''```bash'' @ nl @ ''# list'' @ nl @ ''ls -la'' @ nl @ ''```'')) = [''ls -la'']
   \<and> s_command (generate_node (\<lambda>st. Inr (''```bash'' @ nl @ ''# list'' @ nl @ ''ls -la'' @ nl @ ''```''))
        (initial_state ''list files'')) = Some ''ls -la''"
proof -
  let ?r = "''```bash'' @ nl @ ''# list'' @ nl @ ''ls -la'' @ nl @ ''```''"
  have u: "unfence ?r = ''# list'' @ nl @ ''ls -la''" by code_simp
  have h1: "\<not> truthy (s_command (initial_state ''list files''))" by code_simp
  have h3: "\<not> startswith (unfence ?r) ''echo''" unfolding u by code_simp
  have c: "candidate_lines (unfence ?r) = [''ls -la'']" unfolding u by code_simp
  have n: "CHR 0x0A \<in> set (unfence ?r)" unfolding u by (simp add: nl_def)
  have h4: "candidate_lines (unfence ?r) \<noteq> [] \<or> CHR 0x0A \<notin> set (unfence ?r)" using c by simp
  from generated_command_first_line [of "initial_state ''list files''" "\<lambda>st. Inr ?r" ?r, OF h1 refl h3 h4]
  have "s_command (generate_node (\<lambda>st. Inr ?r) (initial_state ''list files'')) = Some ''ls -la''"
    using n c by simp
  with h1 h3 c show ?thesis by blast
qed

section \<open>Properties of the JSON repair\<close>

lemma json_fence_is_fence: "startswith s ''```json'' \<Longrightarrow> startswith s ''```''"
  by (auto simp: startswith_iff)

lemma sub_fence_no_tick: "\<not> startswith s ''`'' \<Longrightarrow> \<not> startswith (sub_fence s) ''`''"
  by (cases s) auto

lemma sub_fence_no_two_ticks: "\<not> startswith s ''``'' \<Longrightarrow> \<not> startswith (sub_fence s) ''``''"
proof (cases s)
  case Nil
  then show ?thesis by simp
next
  case (Cons d ds)
  assume a: "\<not> startswith s ''``''"
  show ?thesis
  proof (cases "d = CHR ''`''")
    case False
    then show ?thesis using Cons by simp
  next
    case True
    then have "\<not> startswith ds ''`''" using a Cons by simp
    then have "\<not> startswith (sub_fence ds) ''`''" by (rule sub_fence_no_tick)
    moreover have "sub_fence s = d # sub_fence ds" using Cons True \<open>\<not> startswith ds ''`''\<close>
      by (cases ds) auto
    ultimately show ?thesis using True by simp
  qed
qed

lemma sub_fence_no_fence: "\<not> str_in ''```'' (sub_fence s)"
proof (induction s rule: sub_fence.induct)
  case 1
  then show ?case by simp
next
  case (2 c cs)
  show ?case
  proof (cases "startswith (c # cs) ''```''")
    case True
    then show ?thesis using 2 by simp
  next
    case False
    then have ih: "\<not> str_in ''```'' (sub_fence cs)" using 2 by simp
    have "\<not> startswith (c # sub_fence cs) ''```''"
    proof (cases "c = CHR ''`''")
      case True
      then have "\<not> startswith cs ''``''" using False by simp
      then have "\<not> startswith (sub_fence cs) ''``''" by (rule sub_fence_no_two_ticks)
      then show ?thesis using True by simp
    qed simp
    then show ?thesis using False ih by simp
  qed
qed

lemma sub_fence_id: "\<not> str_in ''```'' t \<Longrightarrow> sub_fence t = t"
  by (induction t) auto

lemma sub_json_fence_id: "\<not> str_in ''```'' t \<Longrightarrow> sub_json_fence t = t"
proof (induction t)
  case Nil
  then show ?case by simp
next
  case (Cons c cs)
  then have "\<not> startswith (c # cs) ''```''" "\<not> str_in ''```'' cs" by auto
  then show ?case using Cons.IH json_fence_is_fence [of "c # cs"] by auto
qed

lemma rev_dropWhile_split: "xs = rev (dropWhile P (rev xs)) @ rev (takeWhile P (rev xs))"
proof -
  have "rev (takeWhile P (rev xs) @ dropWhile P (rev xs)) = xs"
    by (simp only: takeWhile_dropWhile_id rev_rev_ident)
  then show ?thesis by (simp only: rev_append)
qed

lemma strip_is_substring: "\<exists>a b. s = a @ strip s @ b"
proof -
  let ?d = "dropWhile is_space s"
  have 1: "s = takeWhile is_space s @ ?d" by simp
  have 2: "?d = strip s @ rev (takeWhile is_space (rev ?d))"
    unfolding strip_def by (rule rev_dropWhile_split)
  from 1 2 have "s = takeWhile is_space s @ strip s @ rev (takeWhile is_space (rev ?d))"
    by metis
  then show ?thesis by blast
qed

lemma str_in_substring: "str_in p m \<Longrightarrow> s = a @ m @ b \<Longrightarrow> str_in p s"
proof -
  assume "str_in p m" "s = a @ m @ b"
  then obtain x y where "s = a @ (x @ p @ y) @ b" by (auto simp: str_in_iff)
  then have "s = (a @ x) @ p @ (y @ b)" by simp
  then show ?thesis unfolding str_in_iff by blast
qed

lemma str_in_strip: "str_in p (strip s) \<Longrightarrow> str_in p s"
  using strip_is_substring [of s] str_in_substring by blast

lemma json_span_substring: "json_span s = Some m \<Longrightarrow> \<exists>a b. s = a @ m @ b"
proof -
  assume a: "json_span s = Some m"
  let ?r = "dropWhile (\<lambda>c. c \<noteq> CHR ''{'') s"
  have m: "m = rev (dropWhile (\<lambda>c. c \<noteq> CHR ''}'') (rev ?r))"
    using a by (simp add: json_span_def Let_def split: if_splits)
  have "?r = m @ rev (takeWhile (\<lambda>c. c \<noteq> CHR ''}'') (rev ?r))"
    unfolding m by (rule rev_dropWhile_split)
  moreover have "s = takeWhile (\<lambda>c. c \<noteq> CHR ''{'') s @ ?r" by simp
  ultimately have "s = takeWhile (\<lambda>c. c \<noteq> CHR ''{'') s @ m @ rev (takeWhile (\<lambda>c. c \<noteq> CHR ''}'') (rev ?r))"
    by metis
  then show ?thesis by blast
qed

lemma json_span_shape:
  assumes "json_span s = Some m"
  shows "m \<noteq> [] \<and> hd m = CHR ''{'' \<and> last m = CHR ''}''"
proof -
  let ?r = "dropWhile (\<lambda>c. c \<noteq> CHR ''{'') s"
  let ?e = "dropWhile (\<lambda>c. c \<noteq> CHR ''}'') (rev ?r)"
  have m: "m = rev ?e" and ne: "?e \<noteq> []"
    using assms by (auto simp: json_span_def Let_def split: if_splits)
  have he: "hd ?e = CHR ''}''" using ne hd_dropWhile [of "\<lambda>c. c \<noteq> CHR ''}''" "rev ?r"] by blast
  have rne: "?r \<noteq> []"
  proof
    assume "?r = []"
    then have "?e = dropWhile (\<lambda>c. c \<noteq> CHR ''}'') (rev [])" by (rule arg_cong)
    with ne show False by simp
  qed
  then have hr: "hd ?r = CHR ''{''" using hd_dropWhile [of "\<lambda>c. c \<noteq> CHR ''{''" s] by blast
  have "rev ?r = takeWhile (\<lambda>c. c \<noteq> CHR ''}'') (rev ?r) @ ?e" by simp
  then have "last (rev ?r) = last ?e" using ne by (metis last_appendR)
  moreover have "last (rev ?r) = hd ?r" using rne by (simp add: last_rev)
  ultimately have le: "last ?e = CHR ''{''" using hr by simp
  have "hd m = last ?e" using m ne by (simp add: hd_rev)
  moreover have "last m = hd ?e" using m ne by (simp add: last_rev)
  ultimately show ?thesis using m ne he le by simp
qed

lemma json_span_whole:
  assumes "t \<noteq> []" "hd t = CHR ''{''" "last t = CHR ''}''"
  shows "json_span t = Some t"
proof -
  have 1: "dropWhile (\<lambda>c. c \<noteq> CHR ''{'') t = t" using assms by (cases t) auto
  have "rev t \<noteq> []" "hd (rev t) = CHR ''}''" using assms by (auto simp: hd_rev)
  then have 2: "dropWhile (\<lambda>c. c \<noteq> CHR ''}'') (rev t) = rev t" by (cases "rev t") auto
  have "json_span t = (if rev (rev t) = [] then None else Some (rev (rev t)))"
    unfolding json_span_def Let_def 1 2 ..
  then show ?thesis using assms(1) by simp
qed

lemma json_span_None: "json_span s = None \<longleftrightarrow> CHR ''}'' \<notin> set (dropWhile (\<lambda>c. c \<noteq> CHR ''{'') s)"
  by (auto simp: json_span_def Let_def dropWhile_eq_Nil_conv)

lemma span_braces:
  "CHR ''}'' \<in> set (dropWhile (\<lambda>c. c \<noteq> CHR ''{'') s) \<longleftrightarrow>
   CHR ''}'' \<in> set (dropWhile (\<lambda>c. c \<noteq> CHR ''{'') (filter (\<lambda>c. c = CHR ''{'' \<or> c = CHR ''}'') s))"
  by (induction s) auto

lemma strip_ends:
  "strip s = [] \<or> (\<not> is_space (hd (strip s)) \<and> \<not> is_space (last (strip s)))"
proof (cases "strip s = []")
  case True
  then show ?thesis by simp
next
  case False
  let ?d = "dropWhile is_space s"
  let ?e = "dropWhile is_space (rev ?d)"
  have s: "strip s = rev ?e" by (simp add: strip_def)
  have ne: "?e \<noteq> []" using False s by simp
  have he: "\<not> is_space (hd ?e)" using ne hd_dropWhile [of is_space "rev ?d"] by blast
  have dne: "?d \<noteq> []"
  proof
    assume "?d = []"
    then have "?e = dropWhile is_space (rev [])" by (rule arg_cong)
    with ne show False by simp
  qed
  then have hd: "\<not> is_space (hd ?d)" using hd_dropWhile [of is_space s] by blast
  have "rev ?d = takeWhile is_space (rev ?d) @ ?e" by simp
  then have "last (rev ?d) = last ?e" using ne by (metis last_appendR)
  moreover have "last (rev ?d) = hd ?d" using dne by (simp add: last_rev)
  ultimately have le: "\<not> is_space (last ?e)" using hd by simp
  have "hd (strip s) = last ?e" "last (strip s) = hd ?e" using s ne by (simp_all add: hd_rev last_rev)
  then show ?thesis using he le by simp
qed

lemma strip_id:
  assumes "t = [] \<or> (\<not> is_space (hd t) \<and> \<not> is_space (last t))"
  shows "strip t = t"
proof (cases "t = []")
  case True
  then show ?thesis by (simp add: strip_def)
next
  case False
  then have h: "\<not> is_space (hd t)" "\<not> is_space (last t)" using assms by auto
  have 1: "dropWhile is_space t = t" using False h(1) by (cases t) auto
  have "rev t \<noteq> []" "\<not> is_space (hd (rev t))" using False h(2) by (auto simp: hd_rev)
  then have 2: "dropWhile is_space (rev t) = rev t" by (cases "rev t") auto
  show ?thesis unfolding strip_def 1 2 by simp
qed

lemma startswith_map:
  "startswith (map f s) p \<Longrightarrow> list_all (\<lambda>x. \<forall>c. f c = x \<longrightarrow> c = x) p \<Longrightarrow> startswith s p"
  by (induction s p rule: startswith.induct) (auto split: if_splits)

lemma str_in_map:
  "str_in p (map f s) \<Longrightarrow> p \<noteq> [] \<Longrightarrow> list_all (\<lambda>x. \<forall>c. f c = x \<longrightarrow> c = x) p \<Longrightarrow> str_in p s"
proof (induction s)
  case Nil
  then show ?case by simp
next
  case (Cons c cs)
  from Cons.prems(1) consider "startswith (map f (c # cs)) p" | "str_in p (map f cs)" by auto
  then show ?case
  proof cases
    case 1
    then have "startswith (c # cs) p" using Cons.prems(3) by (rule startswith_map)
    then show ?thesis by simp
  next
    case 2
    then show ?thesis using Cons by simp
  qed
qed

lemma starts_with_closer: "startswith d [c] \<Longrightarrow> d = c # drop 1 d"
  by (cases d) (auto split: if_splits)

lemma comma_match_split:
  assumes "startswith (dropWhile is_space cs) [closer]"
  shows "cs = takeWhile is_space cs @ closer # drop 1 (dropWhile is_space cs)"
proof -
  have "dropWhile is_space cs = closer # drop 1 (dropWhile is_space cs)"
    using assms by (rule starts_with_closer)
  then have "takeWhile is_space cs @ dropWhile is_space cs
      = takeWhile is_space cs @ closer # drop 1 (dropWhile is_space cs)" by simp
  then show ?thesis by (simp only: takeWhile_dropWhile_id)
qed

lemma sub_comma_set: "set (sub_comma closer s) \<subseteq> set s"
proof (induction closer s rule: sub_comma.induct)
  case (1 closer)
  then show ?case by simp
next
  case (2 closer c cs)
  show ?case
  proof (cases "c = CHR '','' \<and> startswith (dropWhile is_space cs) [closer]")
    case True
    define r where "r = drop 1 (dropWhile is_space cs)"
    define w where "w = takeWhile is_space cs"
    have cs: "cs = w @ closer # r" unfolding r_def w_def using True by (intro comma_match_split) simp
    have out: "sub_comma closer (c # cs) = closer # sub_comma closer r" using True by (simp add: r_def)
    have ih: "set (sub_comma closer r) \<subseteq> set r" using 2(1) True unfolding r_def by blast
    have "closer \<in> set cs" by (subst cs) simp
    moreover have "set r \<subseteq> set cs" by (subst cs) auto
    ultimately have "closer \<in> set cs" "set r \<subseteq> set cs" by blast+
    then show ?thesis using out ih by auto
  next
    case False
    then show ?thesis using 2 by auto
  qed
qed

lemma sub_comma_last: "s \<noteq> [] \<Longrightarrow> sub_comma closer s \<noteq> [] \<and> last (sub_comma closer s) = last s"
proof (induction closer s rule: sub_comma.induct)
  case (1 closer)
  then show ?case by simp
next
  case (2 closer c cs)
  show ?case
  proof (cases "c = CHR '','' \<and> startswith (dropWhile is_space cs) [closer]")
    case True
    define r where "r = drop 1 (dropWhile is_space cs)"
    define w where "w = takeWhile is_space cs"
    have cs: "cs = w @ closer # r" unfolding r_def w_def using True by (intro comma_match_split) simp
    have l: "last (c # cs) = last (closer # r)" by (subst cs) simp
    have out: "sub_comma closer (c # cs) = closer # sub_comma closer r" using True by (simp add: r_def)
    show ?thesis
    proof (cases "r = []")
      case True
      then show ?thesis using out l by simp
    next
      case False
      then have "sub_comma closer r \<noteq> [] \<and> last (sub_comma closer r) = last r"
        using 2(1) True unfolding r_def by blast
      then show ?thesis using out l False by simp
    qed
  next
    case False
    then have out: "sub_comma closer (c # cs) = c # sub_comma closer cs" by auto
    show ?thesis
    proof (cases "cs = []")
      case True
      then show ?thesis using out by simp
    next
      case f: False
      then have "sub_comma closer cs \<noteq> [] \<and> last (sub_comma closer cs) = last cs" using 2(2) False by blast
      then show ?thesis using out f by simp
    qed
  qed
qed

lemma sub_comma_hd: "s \<noteq> [] \<Longrightarrow> hd (sub_comma closer s) = hd s \<or> hd (sub_comma closer s) = closer"
  by (cases s) auto

lemma sub_comma_hd_keep: "s \<noteq> [] \<Longrightarrow> hd s \<noteq> CHR '','' \<Longrightarrow> hd (sub_comma closer s) = hd s"
  by (cases s) auto

lemma sub_comma_ticks:
  "closer \<noteq> CHR ''`'' \<Longrightarrow> startswith (sub_comma closer s) (replicate n (CHR ''`'')) \<Longrightarrow>
   startswith s (replicate n (CHR ''`''))"
proof (induction n arbitrary: s)
  case 0
  then show ?case by simp
next
  case (Suc n)
  show ?case
  proof (cases s)
    case Nil
    then show ?thesis using Suc.prems by simp
  next
    case (Cons c cs)
    show ?thesis
    proof (cases "c = CHR '','' \<and> startswith (dropWhile is_space cs) [closer]")
      case True
      then show ?thesis using Suc.prems Cons by simp
    next
      case False
      then have "sub_comma closer s = c # sub_comma closer cs" using Cons by auto
      then have "c = CHR ''`''" "startswith (sub_comma closer cs) (replicate n (CHR ''`''))"
        using Suc.prems(2) by (auto split: if_splits)
      then show ?thesis using Suc.IH [OF Suc.prems(1), of cs] Cons by simp
    qed
  qed
qed

lemma fence_replicate: "''```'' = replicate 3 (CHR ''`'')"
  by (simp add: numeral_3_eq_3)

lemma sub_comma_no_fence:
  "closer \<noteq> CHR ''`'' \<Longrightarrow> str_in ''```'' (sub_comma closer s) \<Longrightarrow> str_in ''```'' s"
proof (induction closer s rule: sub_comma.induct)
  case (1 closer)
  then show ?case by simp
next
  case (2 closer c cs)
  show ?case
  proof (cases "c = CHR '','' \<and> startswith (dropWhile is_space cs) [closer]")
    case True
    define r where "r = drop 1 (dropWhile is_space cs)"
    define w where "w = takeWhile is_space cs"
    have cs: "cs = w @ closer # r" unfolding r_def w_def using True by (intro comma_match_split) simp
    have out: "sub_comma closer (c # cs) = closer # sub_comma closer r" using True by (simp add: r_def)
    have "str_in ''```'' (closer # sub_comma closer r)" using "2.prems"(2) out by simp
    then have "str_in ''```'' (sub_comma closer r)" using "2.prems"(1) by (auto split: if_splits)
    then have r: "str_in ''```'' r" using "2.IH"(1) True "2.prems"(1) unfolding r_def by blast
    have "c # cs = (c # w @ [closer]) @ r @ []" by (subst cs) simp
    then show ?thesis using r str_in_substring by blast
  next
    case False
    then have out: "sub_comma closer (c # cs) = c # sub_comma closer cs" by auto
    have "str_in ''```'' (c # sub_comma closer cs)" using "2.prems"(2) out by simp
    then consider "startswith (c # sub_comma closer cs) ''```''" | "str_in ''```'' (sub_comma closer cs)"
      by (simp only: str_in.simps) blast
    then show ?thesis
    proof cases
      case 1
      then have "startswith (sub_comma closer (c # cs)) (replicate 3 (CHR ''`''))"
        using out by (simp only: fence_replicate)
      then have "startswith (c # cs) (replicate 3 (CHR ''`''))"
        using sub_comma_ticks [OF "2.prems"(1)] by blast
      then have "startswith (c # cs) ''```''" by (simp only: fence_replicate)
      then show ?thesis by (simp only: str_in.simps simp_thms)
    next
      case 2
      then have "str_in ''```'' cs" using "2.IH"(2) False "2.prems"(1) by blast
      then show ?thesis by (simp only: str_in.simps simp_thms)
    qed
  qed
qed

lemma space_not_brace: "is_space c \<Longrightarrow> c \<noteq> CHR ''{'' \<and> c \<noteq> CHR ''}''"
  by (auto simp: is_space_def)

lemma sub_comma_braces:
  "closer = CHR ''}'' \<or> closer = CHR '']'' \<Longrightarrow>
   filter (\<lambda>c. c = CHR ''{'' \<or> c = CHR ''}'') (sub_comma closer s)
     = filter (\<lambda>c. c = CHR ''{'' \<or> c = CHR ''}'') s"
proof (induction closer s rule: sub_comma.induct)
  case (1 closer)
  then show ?case by simp
next
  case (2 closer c cs)
  let ?B = "\<lambda>c. c = CHR ''{'' \<or> c = CHR ''}''"
  show ?case
  proof (cases "c = CHR '','' \<and> startswith (dropWhile is_space cs) [closer]")
    case True
    define r where "r = drop 1 (dropWhile is_space cs)"
    define w where "w = takeWhile is_space cs"
    have cs: "cs = w @ closer # r" unfolding r_def w_def using True by (intro comma_match_split) simp
    have out: "sub_comma closer (c # cs) = closer # sub_comma closer r" using True by (simp add: r_def)
    have ih: "filter ?B (sub_comma closer r) = filter ?B r"
      using "2.IH"(1) True "2.prems" unfolding r_def by blast
    have "\<forall>x \<in> set w. is_space x" unfolding w_def by (auto dest: set_takeWhileD)
    then have fw: "filter ?B w = []" using space_not_brace by (auto simp: filter_empty_conv)
    have "filter ?B (c # cs) = filter ?B cs" using True by simp
    also have "\<dots> = filter ?B (w @ closer # r)" by (subst cs) simp
    also have "\<dots> = filter ?B (closer # r)" using fw by simp
    finally show ?thesis using out ih by simp
  next
    case False
    then have out: "sub_comma closer (c # cs) = c # sub_comma closer cs" by auto
    have "filter ?B (sub_comma closer cs) = filter ?B cs" using "2.IH"(2) False "2.prems" by blast
    then show ?thesis using out by simp
  qed
qed

lemma quote_map_braces:
  "filter (\<lambda>c. c = CHR ''{'' \<or> c = CHR ''}'') (map (\<lambda>c. if c = CHR 0x27 then CHR 0x22 else c) s)
     = filter (\<lambda>c. c = CHR ''{'' \<or> c = CHR ''}'') s"
  by (induction s) auto

lemma quote_map_id: "CHR 0x27 \<notin> set t \<Longrightarrow> map (\<lambda>c. if c = CHR 0x27 then CHR 0x22 else c) t = t"
  by (induction t) auto

lemma quote_map_no_quote: "CHR 0x27 \<notin> set (map (\<lambda>c. if c = CHR 0x27 then CHR 0x22 else c) s)"
  by (induction s) auto

lemma quote_map_space: "\<not> is_space c \<Longrightarrow> \<not> is_space (if c = CHR 0x27 then CHR 0x22 else c)"
  by (auto simp: is_space_def)

text \<open>
  Each comma rule removes one comma before a closing brace or bracket, in one pass from
  the left. Of two commas before a brace the first is not followed by the brace, so one
  repair removes the second only, and the next repair removes the first.
\<close>

theorem fix_json_string_not_idempotent:
  "fix_json_string ''{,,}'' = ''{,}'' \<and> fix_json_string (fix_json_string ''{,,}'') = ''{}''"
  by code_simp

text \<open>
  Claim C9, amended. The repair is idempotent on every string whose repair has no comma
  left before a closing brace or bracket, that is, whose repair the two comma rules leave
  unchanged. The other steps never change a repaired string: it has no code fence, no
  whitespace at its ends and no single quote, and the span from its first \<open>{\<close> to its
  last \<open>}\<close> is the whole string when there is such a span.
\<close>

theorem fix_json_string_idempotent_without_commas:
  assumes h1: "sub_comma (CHR ''}'') (fix_json_string s) = fix_json_string s"
    and h2: "sub_comma (CHR '']'') (fix_json_string s) = fix_json_string s"
  shows "fix_json_string (fix_json_string s) = fix_json_string s"
proof -
  let ?Q = "\<lambda>c. if c = CHR 0x27 then CHR 0x22 else c"
  let ?B = "\<lambda>c. c = CHR ''{'' \<or> c = CHR ''}''"
  define a2 where "a2 = sub_fence (sub_json_fence s)"
  define a3 where "a3 = strip a2"
  define a4 where "a4 = (case json_span a3 of Some m \<Rightarrow> m | None \<Rightarrow> a3)"
  define a5 where "a5 = map ?Q a4"
  define a6 where "a6 = sub_comma (CHR ''}'') a5"
  define t where "t = sub_comma (CHR '']'') a6"
  have t: "fix_json_string s = t"
    unfolding t_def a6_def a5_def a4_def a3_def a2_def fix_json_string_def Let_def ..
  \<comment> \<open>no fence is left\<close>
  have "\<not> str_in ''```'' a2" unfolding a2_def by (rule sub_fence_no_fence)
  then have n3: "\<not> str_in ''```'' a3" unfolding a3_def using str_in_strip by blast
  have "\<exists>a b. a3 = a @ a4 @ b"
  proof (cases "json_span a3")
    case None
    then have "a3 = [] @ a4 @ []" by (simp add: a4_def)
    then show ?thesis by blast
  next
    case (Some m)
    then show ?thesis using json_span_substring [OF Some] by (simp add: a4_def)
  qed
  then have n4: "\<not> str_in ''```'' a4" using n3 str_in_substring by blast
  have n5: "\<not> str_in ''```'' a5"
  proof
    assume "str_in ''```'' a5"
    then have "str_in ''```'' a4" unfolding a5_def by (rule str_in_map) simp_all
    with n4 show False by simp
  qed
  have n6: "\<not> str_in ''```'' a6" unfolding a6_def using n5 sub_comma_no_fence [of "CHR ''}''" a5] by auto
  have nt: "\<not> str_in ''```'' t" unfolding t_def using n6 sub_comma_no_fence [of "CHR '']''" a6] by auto
  \<comment> \<open>no whitespace at the ends\<close>
  have e3: "a3 = [] \<or> (\<not> is_space (hd a3) \<and> \<not> is_space (last a3))"
    unfolding a3_def by (rule strip_ends)
  have e4: "a4 = [] \<or> (\<not> is_space (hd a4) \<and> \<not> is_space (last a4))"
  proof (cases "json_span a3")
    case None
    then show ?thesis using e3 by (simp add: a4_def)
  next
    case (Some m)
    then have "a4 = m" by (simp add: a4_def)
    then show ?thesis using json_span_shape [OF Some] by (simp add: is_space_def)
  qed
  have e5: "a5 = [] \<or> (\<not> is_space (hd a5) \<and> \<not> is_space (last a5))"
  proof (cases "a4 = []")
    case True
    then show ?thesis by (simp add: a5_def)
  next
    case False
    then have "hd a5 = ?Q (hd a4)" "last a5 = ?Q (last a4)" unfolding a5_def by (simp_all add: hd_map last_map)
    then show ?thesis using e4 False quote_map_space by metis
  qed
  have ends: "\<And>closer x. \<not> is_space closer \<Longrightarrow> x = [] \<or> (\<not> is_space (hd x) \<and> \<not> is_space (last x))
      \<Longrightarrow> sub_comma closer x = [] \<or> (\<not> is_space (hd (sub_comma closer x)) \<and> \<not> is_space (last (sub_comma closer x)))"
  proof -
    fix closer x
    assume c: "\<not> is_space closer" and x: "x = [] \<or> (\<not> is_space (hd x) \<and> \<not> is_space (last x))"
    show "sub_comma closer x = [] \<or> (\<not> is_space (hd (sub_comma closer x)) \<and> \<not> is_space (last (sub_comma closer x)))"
    proof (cases "x = []")
      case True
      then show ?thesis by simp
    next
      case False
      then show ?thesis using sub_comma_last [OF False, of closer] sub_comma_hd [OF False, of closer] c x
        by auto
    qed
  qed
  have e6: "a6 = [] \<or> (\<not> is_space (hd a6) \<and> \<not> is_space (last a6))"
    unfolding a6_def by (rule ends [OF _ e5]) (simp add: is_space_def)
  have et: "t = [] \<or> (\<not> is_space (hd t) \<and> \<not> is_space (last t))"
    unfolding t_def by (rule ends [OF _ e6]) (simp add: is_space_def)
  \<comment> \<open>no single quote is left\<close>
  have "CHR 0x27 \<notin> set a5" unfolding a5_def by (rule quote_map_no_quote)
  then have "CHR 0x27 \<notin> set a6" unfolding a6_def using sub_comma_set [of "CHR ''}''" a5] by auto
  then have qt: "CHR 0x27 \<notin> set t" unfolding t_def using sub_comma_set [of "CHR '']''" a6] by auto
  \<comment> \<open>the span of the braces is the whole string, or there is none\<close>
  have bt: "filter ?B t = filter ?B a4"
    unfolding t_def a6_def a5_def by (simp add: sub_comma_braces quote_map_braces)
  have span: "(case json_span t of Some m \<Rightarrow> m | None \<Rightarrow> t) = t"
  proof (cases "json_span a3")
    case None
    then have "a4 = a3" by (simp add: a4_def)
    then have "filter ?B t = filter ?B a3" using bt by simp
    then have "json_span t = None" using None span_braces [of t] span_braces [of a3]
      by (simp add: json_span_None)
    then show ?thesis by simp
  next
    case (Some m)
    then have m: "a4 = m" by (simp add: a4_def)
    have s4: "a4 \<noteq> []" "hd a4 = CHR ''{''" "last a4 = CHR ''}''" using json_span_shape [OF Some] m by simp_all
    then have s5: "a5 \<noteq> []" "hd a5 = CHR ''{''" "last a5 = CHR ''}''"
      unfolding a5_def by (simp_all add: hd_map last_map)
    have s6: "a6 \<noteq> []" "hd a6 = CHR ''{''" "last a6 = CHR ''}''"
      unfolding a6_def using s5 sub_comma_last [OF s5(1), of "CHR ''}''"] sub_comma_hd_keep [OF s5(1), of "CHR ''}''"]
      by simp_all
    have st: "t \<noteq> []" "hd t = CHR ''{''" "last t = CHR ''}''"
      unfolding t_def using s6 sub_comma_last [OF s6(1), of "CHR '']''"] sub_comma_hd_keep [OF s6(1), of "CHR '']''"]
      by simp_all
    then have "json_span t = Some t" by (rule json_span_whole)
    then show ?thesis by simp
  qed
  have "fix_json_string t = sub_comma (CHR '']'') (sub_comma (CHR ''}'') t)"
    unfolding fix_json_string_def Let_def
    by (simp only: sub_json_fence_id [OF nt] sub_fence_id [OF nt] strip_id [OF et] span
        quote_map_id [OF qt])
  also have "\<dots> = t" using h1 h2 t by simp
  finally show ?thesis using t by simp
qed

theorem fix_json_string_idempotent_without_commas_witness:
  "fix_json_string (''```json'' @ nl @ ''{'' @ sq @ ''a'' @ sq @ '': [1, 2, ], }'' @ nl @ ''```'')
     = ''{'' @ dq @ ''a'' @ dq @ '': [1, 2]}''
   \<and> sub_comma (CHR ''}'') (''{'' @ dq @ ''a'' @ dq @ '': [1, 2]}'') = ''{'' @ dq @ ''a'' @ dq @ '': [1, 2]}''
   \<and> sub_comma (CHR '']'') (''{'' @ dq @ ''a'' @ dq @ '': [1, 2]}'') = ''{'' @ dq @ ''a'' @ dq @ '': [1, 2]}''
   \<and> fix_json_string (''{'' @ dq @ ''a'' @ dq @ '': [1, 2]}'') = ''{'' @ dq @ ''a'' @ dq @ '': [1, 2]}''"
proof -
  let ?s = "''```json'' @ nl @ ''{'' @ sq @ ''a'' @ sq @ '': [1, 2, ], }'' @ nl @ ''```''"
  let ?t = "''{'' @ dq @ ''a'' @ dq @ '': [1, 2]}''"
  have v: "fix_json_string ?s = ?t" by code_simp
  have h1: "sub_comma (CHR ''}'') ?t = ?t" by code_simp
  have h2: "sub_comma (CHR '']'') ?t = ?t" by code_simp
  from fix_json_string_idempotent_without_commas [of ?s] h1 h2
  have "fix_json_string ?t = ?t" unfolding v by blast
  with v h1 h2 show ?thesis by blast
qed

end
